theory Spec2Isabelle
  imports Complex_Main "HOL-Library.Log_Nat" "HOL-Library.Sublist"
begin

section \<open>JavaScript numbers\<close>

text \<open>
  The dashboard computes with JavaScript numbers (IEEE-754 binary64). A number is
  \<open>NaN\<close>, an infinity, or a finite value carried as the exact rational it denotes.
  Every arithmetic operation computes the exact result and rounds it to the nearest
  binary64 value, ties to even (\<open>rnd\<close>). The two zeros are identified: none of the
  modelled functions divides by a variable or inspects the sign of zero, and
  \<open>(-0).toString()\<close> is \<open>"0"\<close>.
\<close>

datatype number = NaN | PosInf | NegInf | Fin rat

definition round_half_even :: "rat \<Rightarrow> int" where
  "round_half_even m =
     (let f = \<lfloor>m\<rfloor>; d = m - of_int f
      in if d < 1 / 2 then f
         else if 1 / 2 < d then f + 1
         else if even f then f else f + 1)"

text \<open>\<open>ilog2 a\<close> is the binary exponent of a positive rational: \<open>2^e \<le> a < 2^(e+1)\<close>.\<close>

definition ilog2 :: "rat \<Rightarrow> int" where
  "ilog2 a = (if 1 \<le> a then bitlen \<lfloor>a\<rfloor> - 1 else - bitlen (\<lceil>1 / a\<rceil> - 1))"

text \<open>
  The spacing of binary64 values around a positive rational: 52 fraction bits below
  the exponent, and the fixed spacing \<open>2^-1074\<close> in the subnormal range.
\<close>

definition ulp :: "rat \<Rightarrow> rat" where
  "ulp a = 2 powi (max (ilog2 a) (- 1022) - 52)"

definition rnd_mag :: "rat \<Rightarrow> rat" where
  "rnd_mag a = of_int (round_half_even (a / ulp a)) * ulp a"

definition rnd :: "rat \<Rightarrow> number" where
  "rnd q =
     (if q = 0 then Fin 0
      else if 0 < q then (if 2 ^ 1024 \<le> rnd_mag q then PosInf else Fin (rnd_mag q))
      else (if 2 ^ 1024 \<le> rnd_mag (- q) then NegInf else Fin (- rnd_mag (- q))))"

fun num_add :: "number \<Rightarrow> number \<Rightarrow> number" where
  "num_add NaN _ = NaN"
| "num_add _ NaN = NaN"
| "num_add PosInf NegInf = NaN"
| "num_add NegInf PosInf = NaN"
| "num_add PosInf _ = PosInf"
| "num_add _ PosInf = PosInf"
| "num_add NegInf _ = NegInf"
| "num_add _ NegInf = NegInf"
| "num_add (Fin a) (Fin b) = rnd (a + b)"

fun num_neg :: "number \<Rightarrow> number" where
  "num_neg NaN = NaN"
| "num_neg PosInf = NegInf"
| "num_neg NegInf = PosInf"
| "num_neg (Fin a) = Fin (- a)"

definition num_sub :: "number \<Rightarrow> number \<Rightarrow> number" where
  "num_sub x y = num_add x (num_neg y)"

text \<open>The sign of a number: \<open>Some True\<close> positive, \<open>Some False\<close> negative, \<open>None\<close> zero or NaN.\<close>

fun num_sign :: "number \<Rightarrow> bool option" where
  "num_sign NaN = None"
| "num_sign PosInf = Some True"
| "num_sign NegInf = Some False"
| "num_sign (Fin a) = (if 0 < a then Some True else if a < 0 then Some False else None)"

definition signed_inf :: "bool \<Rightarrow> number" where
  "signed_inf pos = (if pos then PosInf else NegInf)"

fun num_mul :: "number \<Rightarrow> number \<Rightarrow> number" where
  "num_mul NaN _ = NaN"
| "num_mul _ NaN = NaN"
| "num_mul (Fin a) (Fin b) = rnd (a * b)"
| "num_mul x y =
     (case (num_sign x, num_sign y) of
        (Some s, Some t) \<Rightarrow> signed_inf (s = t)
      | _ \<Rightarrow> NaN)"

fun num_div :: "number \<Rightarrow> number \<Rightarrow> number" where
  "num_div NaN _ = NaN"
| "num_div _ NaN = NaN"
| "num_div (Fin a) (Fin b) =
     (if b = 0 then (if a = 0 then NaN else signed_inf (0 < a)) else rnd (a / b))"
| "num_div (Fin a) _ = Fin 0"
| "num_div x (Fin b) =
     (case num_sign x of Some s \<Rightarrow> signed_inf (s = (0 \<le> b)) | None \<Rightarrow> NaN)"
| "num_div _ _ = NaN"

text \<open>Comparisons are false as soon as an operand is \<open>NaN\<close>.\<close>

fun num_lt :: "number \<Rightarrow> number \<Rightarrow> bool" where
  "num_lt NaN _ = False"
| "num_lt _ NaN = False"
| "num_lt (Fin a) (Fin b) = (a < b)"
| "num_lt NegInf y = (y \<noteq> NegInf)"
| "num_lt x PosInf = (x \<noteq> PosInf)"
| "num_lt _ _ = False"

text \<open>Strict equality \<open>===\<close> on numbers: \<open>NaN\<close> equals nothing.\<close>

definition num_eq :: "number \<Rightarrow> number \<Rightarrow> bool" where
  "num_eq x y = (x \<noteq> NaN \<and> x = y)"

definition num_le :: "number \<Rightarrow> number \<Rightarrow> bool" where
  "num_le x y = (num_lt x y \<or> num_eq x y)"

definition num_gt :: "number \<Rightarrow> number \<Rightarrow> bool" where
  "num_gt x y = num_lt y x"

definition num_ge :: "number \<Rightarrow> number \<Rightarrow> bool" where
  "num_ge x y = num_le y x"

text \<open>\<open>ToBoolean\<close> on a number: \<open>0\<close> and \<open>NaN\<close> are falsy.\<close>

definition num_truthy :: "number \<Rightarrow> bool" where
  "num_truthy x = (x \<noteq> NaN \<and> x \<noteq> Fin 0)"

fun Math_floor :: "number \<Rightarrow> number" where
  "Math_floor (Fin a) = Fin (of_int \<lfloor>a\<rfloor>)"
| "Math_floor x = x"

definition Math_max :: "number \<Rightarrow> number \<Rightarrow> number" where
  "Math_max x y = (if x = NaN \<or> y = NaN then NaN else if num_lt x y then y else x)"

definition Math_min :: "number \<Rightarrow> number \<Rightarrow> number" where
  "Math_min x y = (if x = NaN \<or> y = NaN then NaN else if num_lt y x then y else x)"


section \<open>Strings, errors and conversions of the JavaScript runtime\<close>

text \<open>
  A thrown value is an error object with an optional \<open>message\<close> and the text its
  \<open>toString()\<close> gives.
\<close>

datatype js_error = JsError (message: "string option") (error_toString: string)

definition TypeError :: js_error where
  "TypeError = JsError (Some ''TypeError'') ''TypeError''"

definition bind_err :: "js_error + 'a \<Rightarrow> ('a \<Rightarrow> js_error + 'b) \<Rightarrow> js_error + 'b" where
  "bind_err r f = (case r of Inl e \<Rightarrow> Inl e | Inr v \<Rightarrow> f v)"

text \<open>\<open>String.prototype.includes\<close>: the argument occurs as a contiguous substring.\<close>

fun str_includes :: "string \<Rightarrow> string \<Rightarrow> bool" where
  "str_includes [] sub = (sub = [])"
| "str_includes (c # cs) sub = (prefix sub (c # cs) \<or> str_includes cs sub)"

text \<open>\<open>error.message?.includes(s)\<close>: an absent message gives \<open>undefined\<close>, which is falsy.\<close>

definition message_includes :: "js_error \<Rightarrow> string \<Rightarrow> bool" where
  "message_includes error s = (case message error of None \<Rightarrow> False | Some m \<Rightarrow> str_includes m s)"

text \<open>
  A string is the sequence of UTF-8 bytes of the JavaScript string. The white space that
  \<open>parseInt\<close> skips is \<open>WhiteSpace\<close> and \<open>LineTerminator\<close>: tab, line feed, vertical
  tab, form feed, carriage return, space, U+00A0, U+1680, U+2000 to U+200A, U+2028,
  U+2029, U+202F, U+205F, U+3000 and U+FEFF, each listed as its bytes.
\<close>

definition white_space :: "string list" where
  "white_space =
     [[CHR 0x09], [CHR 0x0A], [CHR 0x0B], [CHR 0x0C], [CHR 0x0D], [CHR 0x20],
      [CHR 0xC2, CHR 0xA0],
      [CHR 0xE1, CHR 0x9A, CHR 0x80],
      [CHR 0xE2, CHR 0x80, CHR 0x80], [CHR 0xE2, CHR 0x80, CHR 0x81],
      [CHR 0xE2, CHR 0x80, CHR 0x82], [CHR 0xE2, CHR 0x80, CHR 0x83],
      [CHR 0xE2, CHR 0x80, CHR 0x84], [CHR 0xE2, CHR 0x80, CHR 0x85],
      [CHR 0xE2, CHR 0x80, CHR 0x86], [CHR 0xE2, CHR 0x80, CHR 0x87],
      [CHR 0xE2, CHR 0x80, CHR 0x88], [CHR 0xE2, CHR 0x80, CHR 0x89],
      [CHR 0xE2, CHR 0x80, CHR 0x8A],
      [CHR 0xE2, CHR 0x80, CHR 0xA8], [CHR 0xE2, CHR 0x80, CHR 0xA9],
      [CHR 0xE2, CHR 0x80, CHR 0xAF],
      [CHR 0xE2, CHR 0x81, CHR 0x9F],
      [CHR 0xE3, CHR 0x80, CHR 0x80],
      [CHR 0xEF, CHR 0xBB, CHR 0xBF]]"

text \<open>The number of bytes of the white-space character a string starts with, 0 when it
  starts with none.\<close>

definition white_length :: "string \<Rightarrow> nat" where
  "white_length s =
     (case find (\<lambda>w. prefix w s) white_space of None \<Rightarrow> 0 | Some w \<Rightarrow> length w)"

text \<open>\<open>skip_white 0 s\<close> is \<open>s\<close> without its leading white space; the first argument counts
  the bytes of the current white-space character still to drop.\<close>

fun skip_white :: "nat \<Rightarrow> string \<Rightarrow> string" where
  "skip_white n [] = []"
| "skip_white (Suc n) (c # cs) = skip_white n cs"
| "skip_white 0 (c # cs) =
     (if white_length (c # cs) = 0 then c # cs
      else skip_white (white_length (c # cs) - 1) cs)"

definition digit_val :: "char \<Rightarrow> nat option" where
  "digit_val c = (let n = (of_char c :: nat) in if 48 \<le> n \<and> n \<le> 57 then Some (n - 48) else None)"

definition hex_val :: "char \<Rightarrow> nat option" where
  "hex_val c =
     (let n = (of_char c :: nat)
      in if 48 \<le> n \<and> n \<le> 57 then Some (n - 48)
         else if 97 \<le> n \<and> n \<le> 102 then Some (n - 87)
         else if 65 \<le> n \<and> n \<le> 70 then Some (n - 55)
         else None)"

definition digit_or_zero :: "(char \<Rightarrow> nat option) \<Rightarrow> char \<Rightarrow> nat" where
  "digit_or_zero val c = (case val c of Some d \<Rightarrow> d | None \<Rightarrow> 0)"

text \<open>The value of the longest prefix of digits; \<open>None\<close> when the text starts with no digit.\<close>

definition parse_digits :: "nat \<Rightarrow> (char \<Rightarrow> nat option) \<Rightarrow> string \<Rightarrow> nat option" where
  "parse_digits base val s =
     (let ds = takeWhile (\<lambda>c. val c \<noteq> None) s
      in if ds = [] then None
         else Some (foldl (\<lambda>acc c. acc * base + digit_or_zero val c) 0 ds))"

definition strip_sign :: "string \<Rightarrow> bool \<times> string" where
  "strip_sign s =
     (case s of
        [] \<Rightarrow> (False, [])
      | c # cs \<Rightarrow> if c = CHR ''-'' then (True, cs)
                 else if c = CHR ''+'' then (False, cs)
                 else (False, s))"

definition to_number :: "bool \<Rightarrow> nat option \<Rightarrow> number" where
  "to_number neg v =
     (case v of None \<Rightarrow> NaN
      | Some n \<Rightarrow> rnd (if neg then - of_nat n else of_nat n))"

text \<open>
  \<open>parseInt(s, 10)\<close>: leading white space is skipped, then an optional sign, then the
  longest run of decimal digits; the integer read is rounded to binary64.
\<close>

definition parseInt10 :: "string \<Rightarrow> number" where
  "parseInt10 s =
     (let (neg, t) = strip_sign (skip_white 0 s)
      in to_number neg (parse_digits 10 digit_val t))"

text \<open>\<open>parseInt(s)\<close> without a radix: a \<open>0x\<close> prefix selects base 16.\<close>

definition parseInt :: "string \<Rightarrow> number" where
  "parseInt s =
     (let (neg, t) = strip_sign (skip_white 0 s)
      in if prefix ''0x'' t \<or> prefix ''0X'' t
         then to_number neg (parse_digits 16 hex_val (drop 2 t))
         else to_number neg (parse_digits 10 digit_val t))"

definition digit_char :: "nat \<Rightarrow> char" where
  "digit_char d = ''0123456789'' ! d"

fun nat_toString :: "nat \<Rightarrow> string" where
  "nat_toString n =
     (if n < 10 then [digit_char n] else nat_toString (n div 10) @ [digit_char (n mod 10)])"

declare nat_toString.simps [simp del]

definition int_toString :: "int \<Rightarrow> string" where
  "int_toString i = (if i < 0 then CHR ''-'' # nat_toString (nat (- i)) else nat_toString (nat i))"

text \<open>
  \<open>Number.prototype.toString\<close>. For an integer of magnitude at most \<open>2^53\<close> the result
  is its decimal expansion. For any other finite value (a fraction, or a larger
  magnitude, where the shortest round-tripping digits and the exponent form apply) the
  text is given by the parameter \<open>fmt\<close>, which stands for that part of the runtime.
\<close>

definition number_toString :: "(rat \<Rightarrow> string) \<Rightarrow> number \<Rightarrow> string" where
  "number_toString fmt x =
     (case x of
        NaN \<Rightarrow> ''NaN''
      | PosInf \<Rightarrow> ''Infinity''
      | NegInf \<Rightarrow> ''-Infinity''
      | Fin q \<Rightarrow> if of_int \<lfloor>q\<rfloor> = q \<and> \<bar>q\<bar> \<le> 2 ^ 53 then int_toString \<lfloor>q\<rfloor> else fmt q)"

text \<open>A formatter used where a closed example needs one; no example reaches it.\<close>

definition plain_fmt :: "rat \<Rightarrow> string" where
  "plain_fmt q = int_toString \<lfloor>q\<rfloor>"

section \<open>Unit conversion (contractUtils.ts)\<close>

definition usdcToUnits :: "(rat \<Rightarrow> string) \<Rightarrow> number \<Rightarrow> string" where
  "usdcToUnits fmt usdcAmount =
     (let amount = Math_floor (num_mul usdcAmount (Fin 1000000))
      in number_toString fmt amount)"

datatype units = UnitsString string | UnitsNumber number

definition unitsToUsdc :: "units \<Rightarrow> number" where
  "unitsToUsdc units =
     (let unitsNum = (case units of UnitsString s \<Rightarrow> parseInt10 s | UnitsNumber n \<Rightarrow> n)
      in num_div unitsNum (Fin 1000000))"


section \<open>Credit state reader (contractUtils.ts)\<close>

text \<open>
  The ledger is reached through read-only view calls. A call either rejects with an
  error or resolves to the decoded tuple its type annotation names. The contract and
  administrator addresses come from the build environment and are parameters.
\<close>

record config =
  CONTRACT_ADDRESS :: string
  ADMIN_ADDRESS :: string

type_synonym credit_info_tuple = "string \<times> string \<times> string \<times> string \<times> string \<times> string \<times> bool"

record ledger =
  is_paused_view :: "js_error + bool"
  get_credit_info_view :: "string \<Rightarrow> js_error + credit_info_tuple"

record credit_line_info =
  creditLimit :: number
  currentDebt :: number
  borrowed :: number
  interestAccrued :: number
  availableCredit :: number
  isActive :: bool
  repaymentDueDate :: number
  collateral :: number
  totalRepaid :: number

definition zero_credit_line :: credit_line_info where
  "zero_credit_line =
     \<lparr>creditLimit = Fin 0, currentDebt = Fin 0, borrowed = Fin 0, interestAccrued = Fin 0,
      availableCredit = Fin 0, isActive = False, repaymentDueDate = Fin 0, collateral = Fin 0,
      totalRepaid = Fin 0\<rparr>"

text \<open>
  The probe awaits the \<open>is_paused\<close> view. Its handler tests the message for the
  resource-not-found texts, both branches of that test are empty, and \<open>false\<close> is
  returned after it.
\<close>

definition checkCreditManagerInitialized :: "ledger \<Rightarrow> bool" where
  "checkCreditManagerInitialized l =
     (case is_paused_view l of
        Inr _ \<Rightarrow> True
      | Inl error \<Rightarrow>
          (if message_includes error ''Failed to borrow global resource''
              \<or> message_includes error ''resource_not_found''
              \<or> message_includes error ''Resource not found''
           then False
           else False))"

definition getCreditLineInfo :: "ledger \<Rightarrow> string \<Rightarrow> credit_line_info option" where
  "getCreditLineInfo l userAddress =
     (let creditManagerExists = checkCreditManagerInitialized l
      in if \<not> creditManagerExists then Some zero_credit_line
         else
           (case get_credit_info_view l userAddress of
              Inr (collateralDeposited, creditLimit', borrowedAmount, totalInterest,
                   totalRepaid', repaymentDueDate', isActive') \<Rightarrow>
                (let creditLimitUsdc = unitsToUsdc (UnitsString creditLimit');
                     borrowedUsdc = unitsToUsdc (UnitsString borrowedAmount);
                     interestUsdc = unitsToUsdc (UnitsString totalInterest);
                     currentDebtUsdc = num_add borrowedUsdc interestUsdc;
                     availableCredit' = num_sub creditLimitUsdc currentDebtUsdc
                 in Some \<lparr>creditLimit = creditLimitUsdc,
                           currentDebt = currentDebtUsdc,
                           borrowed = borrowedUsdc,
                           interestAccrued = interestUsdc,
                           availableCredit = Math_max (Fin 0) availableCredit',
                           isActive = isActive',
                           repaymentDueDate = parseInt repaymentDueDate',
                           collateral = unitsToUsdc (UnitsString collateralDeposited),
                           totalRepaid = unitsToUsdc (UnitsString totalRepaid')\<rparr>)
            | Inl error \<Rightarrow>
                if message_includes error ''Function not found''
                   \<or> message_includes error ''FUNCTION_NOT_FOUND''
                then Some zero_credit_line
                else None))"

record collateral_status =
  hasActiveCreditLine :: bool
  collateralAmount :: number
  status_creditLimit :: number
  status_currentDebt :: number
  status_availableCredit :: number
  canWithdraw :: number

text \<open>The body of \<open>checkCollateralStatus\<close> after the credit line has been read.\<close>

definition collateral_status_of :: "credit_line_info option \<Rightarrow> collateral_status" where
  "collateral_status_of creditInfo =
     (case creditInfo of
        None \<Rightarrow>
          \<lparr>hasActiveCreditLine = False, collateralAmount = Fin 0, status_creditLimit = Fin 0,
           status_currentDebt = Fin 0, status_availableCredit = Fin 0, canWithdraw = Fin 0\<rparr>
      | Some info \<Rightarrow>
          (let canWithdraw' = (if num_eq (currentDebt info) (Fin 0) then collateral info else Fin 0)
           in \<lparr>hasActiveCreditLine = isActive info,
               collateralAmount = collateral info,
               status_creditLimit = creditLimit info,
               status_currentDebt = currentDebt info,
               status_availableCredit = availableCredit info,
               canWithdraw = canWithdraw'\<rparr>))"

text \<open>\<open>getCreditLineInfo\<close> never rejects, so the handler of \<open>checkCollateralStatus\<close> is not reached.\<close>

definition checkCollateralStatus :: "ledger \<Rightarrow> string \<Rightarrow> collateral_status option" where
  "checkCollateralStatus l userAddress = Some (collateral_status_of (getCreditLineInfo l userAddress))"

section \<open>Interest accrual (contractUtils.ts)\<close>

definition default_gracePeriodSeconds :: number where
  "default_gracePeriodSeconds = Fin 2592000"

text \<open>The function after it has read the clock: \<open>currentTime\<close> is \<open>Math.floor(Date.now() / 1000)\<close>.\<close>

definition accrued_interest_at :: "number \<Rightarrow> number \<Rightarrow> number \<Rightarrow> number \<Rightarrow> number \<Rightarrow> number" where
  "accrued_interest_at currentTime principalUsdc annualRateBasisPoints borrowTimestamp gracePeriodSeconds =
     (let graceEndTime = num_add borrowTimestamp gracePeriodSeconds
      in if num_le currentTime graceEndTime then Fin 0
         else
           (let interestStartTime = graceEndTime;
                timeElapsed = num_sub currentTime interestStartTime;
                secondsPerYear = Fin 31536000;
                rate = num_div annualRateBasisPoints (Fin 10000);
                dailyRate = num_div rate secondsPerYear
            in num_mul (num_mul principalUsdc dailyRate) timeElapsed))"

text \<open>\<open>Date_now\<close> is the value \<open>Date.now()\<close> returns, in milliseconds.\<close>

definition calculateAccruedInterest :: "number \<Rightarrow> number \<Rightarrow> number \<Rightarrow> number \<Rightarrow> number \<Rightarrow> number" where
  "calculateAccruedInterest Date_now principalUsdc annualRateBasisPoints borrowTimestamp gracePeriodSeconds =
     accrued_interest_at (Math_floor (num_div Date_now (Fin 1000)))
       principalUsdc annualRateBasisPoints borrowTimestamp gracePeriodSeconds"

section \<open>Repayment allocation (Dashboard.tsx)\<close>

datatype repay_mode = full | custom

text \<open>What \<open>handleRepay\<close> does: it calls \<open>onRepay(principal, interest)\<close> or shows an error toast.\<close>

datatype repay_action = OnRepay number number | ToastError string

text \<open>\<open>parseFloat\<close> is the runtime's; the handler is modelled for any such function.\<close>

definition handleRepay ::
  "(string \<Rightarrow> number) \<Rightarrow> repay_mode \<Rightarrow> string \<Rightarrow> number \<Rightarrow> number \<Rightarrow> number \<Rightarrow> repay_action" where
  "handleRepay parseFloat repayMode customAmount principal' interest usdcBalance =
     (let totalDebt = num_add principal' interest
      in if repayMode = full then OnRepay principal' interest
         else
           (let amount = parseFloat customAmount
            in if \<not> num_truthy amount \<or> num_le amount (Fin 0)
               then ToastError ''Please enter a valid repayment amount''
               else if num_gt amount totalDebt then ToastError ''Amount exceeds total debt''
               else if num_gt amount usdcBalance then ToastError ''Insufficient USDC balance''
               else
                 (let interestPayment = Math_min amount interest;
                      principalPayment = num_sub amount interestPayment
                  in OnRepay principalPayment interestPayment)))"

section \<open>Collateral withdrawal (contractUtils.ts and the staking panel)\<close>

record payload =
  function_name :: string
  functionArguments :: "string list"

record tx_result =
  tx_success :: bool
  tx_hash :: "string option"
  tx_error :: "string option"

definition handleTransactionError :: "js_error \<Rightarrow> string" where
  "handleTransactionError error =
     (let errorMessage = (case message error of
                            Some m \<Rightarrow> if m = [] then error_toString error else m
                          | None \<Rightarrow> error_toString error)
      in if str_includes errorMessage ''EINSUFFICIENT_BALANCE''
         then ''Insufficient USDC balance for this transaction''
         else if str_includes errorMessage ''CREDIT_LINE_EXISTS''
         then ''Credit line already exists for this account''
         else if str_includes errorMessage ''INSUFFICIENT_COLLATERAL''
         then ''Insufficient collateral for the requested credit limit''
         else if str_includes errorMessage ''NOT_AUTHORIZED''
         then ''Transaction not authorized. Please try again.''
         else if str_includes errorMessage ''INVALID_AMOUNT''
         then ''Please enter a valid amount''
         else if str_includes errorMessage ''INSUFFICIENT_LIQUIDITY''
         then ''Not enough liquidity in the pool. Try a smaller amount.''
         else if str_includes errorMessage ''EXCEEDS_CREDIT_LIMIT''
         then ''This transaction exceeds your credit limit''
         else ''Transaction failed. Please try again.'')"

definition withdraw_payload :: "(rat \<Rightarrow> string) \<Rightarrow> config \<Rightarrow> number \<Rightarrow> payload" where
  "withdraw_payload fmt cfg withdrawAmountUsdc =
     \<lparr>function_name = CONTRACT_ADDRESS cfg @ ''::credit_manager::withdraw_collateral'',
      functionArguments = [ADMIN_ADDRESS cfg, usdcToUnits fmt withdrawAmountUsdc]\<rparr>"

text \<open>
  \<open>withdrawCollateral\<close> builds the payload and hands it to the wallet's
  \<open>signAndSubmitTransaction\<close>, which resolves to a transaction hash or rejects.
\<close>

definition withdrawCollateral ::
  "(rat \<Rightarrow> string) \<Rightarrow> config \<Rightarrow> number \<Rightarrow> (payload \<Rightarrow> js_error + string) \<Rightarrow> tx_result" where
  "withdrawCollateral fmt cfg withdrawAmountUsdc signAndSubmitTransaction =
     (case signAndSubmitTransaction (withdraw_payload fmt cfg withdrawAmountUsdc) of
        Inr h \<Rightarrow> \<lparr>tx_success = True, tx_hash = Some h, tx_error = None\<rparr>
      | Inl error \<Rightarrow>
          \<lparr>tx_success = False, tx_hash = None, tx_error = Some (handleTransactionError error)\<rparr>)"

text \<open>
  The effects of the staking panel's handler, in the order they happen. Messages that
  the source builds from a template are kept as the template's name and argument.
\<close>

datatype ui_message =
    ConnectWallet
  | EnterValidAmount
  | MaximumWithdrawable number
  | WithdrewCollateral number
  | ErrorText string

datatype ui_effect =
    SetError "ui_message option"
  | SetSuccess "ui_message option"
  | SetLoading bool
  | SetAmount string
  | SignAndSubmit payload
  | LoadData

record panel_state =
  connected :: bool
  account :: "string option"
  amount_input :: string
  collateralStatus :: "collateral_status option"

definition handleWithdrawCollateral ::
  "(string \<Rightarrow> number) \<Rightarrow> (rat \<Rightarrow> string) \<Rightarrow> config \<Rightarrow> (payload \<Rightarrow> js_error + string)
     \<Rightarrow> panel_state \<Rightarrow> ui_effect list" where
  "handleWithdrawCollateral parseFloat fmt cfg signAndSubmitTransaction st =
     (if \<not> connected st \<or> account st = None then [SetError (Some ConnectWallet)]
      else
        (let amountNum = parseFloat (amount_input st)
         in if \<not> num_truthy amountNum \<or> num_le amountNum (Fin 0)
            then [SetError (Some EnterValidAmount)]
            else
              (case collateralStatus st of
                 None \<Rightarrow> [SetError (Some (MaximumWithdrawable (Fin 0)))]
               | Some status \<Rightarrow>
                   if num_gt amountNum (canWithdraw status)
                   then [SetError (Some (MaximumWithdrawable
                           (if num_truthy (canWithdraw status) then canWithdraw status else Fin 0)))]
                   else
                     [SetLoading True, SetError None, SetSuccess None,
                      SignAndSubmit (withdraw_payload fmt cfg amountNum)]
                     @ (let result = withdrawCollateral fmt cfg amountNum signAndSubmitTransaction
                        in if tx_success result
                           then [SetSuccess (Some (WithdrewCollateral amountNum)), SetAmount [], LoadData]
                           else [SetError (Some (ErrorText
                                   (case tx_error result of
                                      Some e \<Rightarrow> if e = [] then ''Transaction failed'' else e
                                    | None \<Rightarrow> ''Transaction failed'')))])
                     @ [SetLoading False])))"

section \<open>Activity history (contractUtils.ts)\<close>

datatype tx_type = borrow | payment | repay | stake | collateral_withdrawn | credit_opened

text \<open>
  The label \<open>formatTimestamp\<close> renders, as the branch taken and the number shown in it.
  The last branch is the locale's calendar date of the instant, in milliseconds.
\<close>

datatype date_label =
    Unknown
  | JustNow
  | MinAgo number
  | HoursAgo number
  | DaysAgo number
  | LocaleDate number

text \<open>
  The value the lookup \<open>EVENT_TYPE_MAP[event.type]\<close> gives when it is not \<open>undefined\<close>:
  the kind listed under an own key, or the value of a property that the map, a plain
  object, inherits from \<open>Object.prototype\<close> (a function, or the prototype itself), named
  by its key. The record's \<open>type\<close> field holds that value.
\<close>

datatype event_kind = Listed tx_type | Inherited string

record RecentTransaction =
  tx_kind :: event_kind
  tx_amount :: number
  tx_date :: date_label
  tx_status :: string
  tx_reference :: "string option"

text \<open>The fields of an event's \<open>data\<close> object that the reconciler reads; each may be absent.\<close>

record event_fields =
  borrower :: "string option"
  principal_amount :: "string option"
  interest_amount :: "string option"
  collateral_amount :: "string option"
  amount :: "string option"

record chain_event =
  event_type :: string
  event_data :: "event_fields option"

record txn =
  events :: "chain_event list option"
  success :: "bool option"
  timestamp :: "string option"
  version :: "string option"

text \<open>What the transactions request gave: a rejection, a status that is not ok, a body
  that is not JSON, or the list of transactions.\<close>

datatype txn_response = FetchRejected | StatusNotOk | BodyNotJson | Transactions "txn list"

text \<open>The six own keys of the map, the allow-list of event kinds.\<close>

definition listed_kinds :: "config \<Rightarrow> (string \<times> tx_type) list" where
  "listed_kinds cfg =
     [(CONTRACT_ADDRESS cfg @ ''::credit_manager::BorrowedEvent'', borrow),
      (CONTRACT_ADDRESS cfg @ ''::credit_manager::DirectPaymentEvent'', payment),
      (CONTRACT_ADDRESS cfg @ ''::credit_manager::RepaidEvent'', repay),
      (CONTRACT_ADDRESS cfg @ ''::credit_manager::CollateralAddedEvent'', stake),
      (CONTRACT_ADDRESS cfg @ ''::credit_manager::CollateralWithdrawnEvent'', collateral_withdrawn),
      (CONTRACT_ADDRESS cfg @ ''::credit_manager::CreditOpenedEvent'', credit_opened)]"

text \<open>The property names every plain object inherits; the value of each is truthy.\<close>

definition Object_prototype_properties :: "string list" where
  "Object_prototype_properties =
     [''constructor'', ''__defineGetter__'', ''__defineSetter__'', ''hasOwnProperty'',
      ''__lookupGetter__'', ''__lookupSetter__'', ''isPrototypeOf'', ''propertyIsEnumerable'',
      ''toString'', ''valueOf'', ''__proto__'', ''toLocaleString'']"

text \<open>
  \<open>EVENT_TYPE_MAP[key]\<close>: an own key gives its kind; otherwise the lookup goes to the
  prototype; any other key gives \<open>undefined\<close> (\<open>None\<close>).
\<close>

definition EVENT_TYPE_MAP :: "config \<Rightarrow> string \<Rightarrow> event_kind option" where
  "EVENT_TYPE_MAP cfg key =
     (case map_of (listed_kinds cfg) key of
        Some kind \<Rightarrow> Some (Listed kind)
      | None \<Rightarrow> if key \<in> set Object_prototype_properties then Some (Inherited key) else None)"

definition formatTimestamp :: "number \<Rightarrow> number \<Rightarrow> date_label" where
  "formatTimestamp Date_now timestampSecs =
     (if num_eq timestampSecs (Fin 0) then Unknown
      else
        (let now = Math_floor (num_div Date_now (Fin 1000));
             diffSecs = num_sub now timestampSecs
         in if num_lt diffSecs (Fin 60) then JustNow
            else if num_lt diffSecs (Fin 3600) then MinAgo (Math_floor (num_div diffSecs (Fin 60)))
            else if num_lt diffSecs (Fin 86400) then HoursAgo (Math_floor (num_div diffSecs (Fin 3600)))
            else if num_lt diffSecs (Fin 604800) then DaysAgo (Math_floor (num_div diffSecs (Fin 86400)))
            else LocaleDate (num_mul timestampSecs (Fin 1000))))"

text \<open>\<open>x || "0"\<close> on an optional string: absent and empty are falsy.\<close>

definition or_zero :: "string option \<Rightarrow> string" where
  "or_zero x = (case x of None \<Rightarrow> ''0'' | Some s \<Rightarrow> if s = [] then ''0'' else s)"

text \<open>
  \<open>event.data?.borrower && event.data.borrower !== borrowerAddress\<close>: the event is
  skipped when it carries a non-empty borrower other than the queried address.
\<close>

definition foreign_borrower :: "string \<Rightarrow> chain_event \<Rightarrow> bool" where
  "foreign_borrower borrowerAddress event =
     (case event_data event of
        None \<Rightarrow> False
      | Some d \<Rightarrow>
          (case borrower d of
             None \<Rightarrow> False
           | Some b \<Rightarrow> b \<noteq> [] \<and> b \<noteq> borrowerAddress))"

text \<open>The record pushed for an event that passed the checks and has a \<open>data\<close> object.\<close>

definition build_record :: "number \<Rightarrow> txn \<Rightarrow> event_kind \<Rightarrow> event_fields \<Rightarrow> RecentTransaction" where
  "build_record Date_now t txType d =
     (let timestamp' = num_div (parseInt10 (or_zero (timestamp t))) (Fin 1000000);
          amount' =
            (if txType = Listed repay
             then (let principal' = parseInt10 (or_zero (principal_amount d));
                       interest = parseInt10 (or_zero (interest_amount d))
                   in unitsToUsdc (UnitsNumber (num_add principal' interest)))
             else if txType = Listed credit_opened
             then unitsToUsdc (UnitsString (or_zero (collateral_amount d)))
             else unitsToUsdc (UnitsString (or_zero (amount d))))
      in \<lparr>tx_kind = txType, tx_amount = amount', tx_date = formatTimestamp Date_now timestamp',
          tx_status = ''completed'', tx_reference = version t\<rparr>)"

text \<open>
  The inner loop over the events of one transaction. Reading a field of an absent
  \<open>data\<close> object throws, which ends the whole scan.
\<close>

fun scan_events ::
  "config \<Rightarrow> number \<Rightarrow> string \<Rightarrow> txn \<Rightarrow> chain_event list \<Rightarrow> RecentTransaction list
     \<Rightarrow> js_error + RecentTransaction list" where
  "scan_events cfg Date_now borrowerAddress t [] results = Inr results"
| "scan_events cfg Date_now borrowerAddress t (event # rest) results =
     (case EVENT_TYPE_MAP cfg (event_type event) of
        None \<Rightarrow> scan_events cfg Date_now borrowerAddress t rest results
      | Some txType \<Rightarrow>
          if foreign_borrower borrowerAddress event
          then scan_events cfg Date_now borrowerAddress t rest results
          else
            (case event_data event of
               None \<Rightarrow> Inl TypeError
             | Some d \<Rightarrow>
                 scan_events cfg Date_now borrowerAddress t rest
                   (results @ [build_record Date_now t txType d])))"

text \<open>The outer loop over the transactions, left as soon as \<open>limit\<close> records are held.\<close>

fun scan_txns ::
  "config \<Rightarrow> number \<Rightarrow> string \<Rightarrow> nat \<Rightarrow> txn list \<Rightarrow> RecentTransaction list
     \<Rightarrow> js_error + RecentTransaction list" where
  "scan_txns cfg Date_now borrowerAddress limit [] results = Inr results"
| "scan_txns cfg Date_now borrowerAddress limit (t # txns) results =
     (case events t of
        None \<Rightarrow> scan_txns cfg Date_now borrowerAddress limit txns results
      | Some evs \<Rightarrow>
          if success t = Some False
          then scan_txns cfg Date_now borrowerAddress limit txns results
          else
            (case scan_events cfg Date_now borrowerAddress t evs results of
               Inl e \<Rightarrow> Inl e
             | Inr results' \<Rightarrow>
                 if limit \<le> length results' then Inr results'
                 else scan_txns cfg Date_now borrowerAddress limit txns results'))"

text \<open>\<open>limit\<close> is a count of records (20 by default).\<close>

definition getRecentTransactions ::
  "config \<Rightarrow> number \<Rightarrow> txn_response \<Rightarrow> string \<Rightarrow> nat \<Rightarrow> RecentTransaction list" where
  "getRecentTransactions cfg Date_now response borrowerAddress limit =
     (case response of
        Transactions txns \<Rightarrow>
          (case scan_txns cfg Date_now borrowerAddress limit txns [] of
             Inr results \<Rightarrow> take limit results
           | Inl error \<Rightarrow> [])
      | _ \<Rightarrow> [])"

text \<open>
  The feed read off the log, for comparison with the scan: every event paired with its
  transaction, in the log's order; the pairs the checks keep; the record of a pair.
\<close>

definition event_pairs :: "txn list \<Rightarrow> (txn \<times> chain_event) list" where
  "event_pairs txns =
     concat (map (\<lambda>t. map (Pair t) (case events t of None \<Rightarrow> [] | Some evs \<Rightarrow> evs)) txns)"

definition kept :: "config \<Rightarrow> string \<Rightarrow> txn \<times> chain_event \<Rightarrow> bool" where
  "kept cfg borrowerAddress p =
     (success (fst p) \<noteq> Some False
      \<and> EVENT_TYPE_MAP cfg (event_type (snd p)) \<noteq> None
      \<and> \<not> foreign_borrower borrowerAddress (snd p))"

definition record_of :: "config \<Rightarrow> number \<Rightarrow> txn \<times> chain_event \<Rightarrow> RecentTransaction option" where
  "record_of cfg Date_now p =
     (case (EVENT_TYPE_MAP cfg (event_type (snd p)), event_data (snd p)) of
        (Some txType, Some d) \<Rightarrow> Some (build_record Date_now (fst p) txType d)
      | _ \<Rightarrow> None)"

section \<open>Balance lookup (contractUtils.ts)\<close>

definition USDC_METADATA :: string where
  "USDC_METADATA = ''0xbae207659db88bea0cbead6da0ed00aac12edcdda169e591cd41c94180b46f3b''"

text \<open>
  The fallback requests return parsed JSON of any shape, and the code reads it untyped.
  A JavaScript value read from it is a JSON value or \<open>undefined\<close> (\<open>None\<close>).
\<close>

datatype json =
    JNull
  | JBool bool
  | JNum number
  | JStr string
  | JArr "json list"
  | JObj "(string \<times> json) list"

text \<open>\<open>v.k\<close>: reading a property of \<open>null\<close> or \<open>undefined\<close> throws; an object gives the
  member (the last one of that name) or \<open>undefined\<close>; the property names read here exist
  on no other kind of value.\<close>

definition get_prop :: "json option \<Rightarrow> string \<Rightarrow> js_error + json option" where
  "get_prop v k =
     (case v of
        None \<Rightarrow> Inl TypeError
      | Some JNull \<Rightarrow> Inl TypeError
      | Some (JObj members) \<Rightarrow> Inr (map_of (rev members) k)
      | Some _ \<Rightarrow> Inr None)"

text \<open>\<open>v?.k\<close>: \<open>undefined\<close> when \<open>v\<close> is \<open>null\<close> or \<open>undefined\<close>; it never throws.\<close>

definition opt_prop :: "json option \<Rightarrow> string \<Rightarrow> json option" where
  "opt_prop v k =
     (case v of
        Some (JObj members) \<Rightarrow> map_of (rev members) k
      | _ \<Rightarrow> None)"

text \<open>\<open>v.includes(s)\<close> exists on strings and arrays; on any other value the call throws.\<close>

definition call_includes :: "json option \<Rightarrow> string \<Rightarrow> js_error + bool" where
  "call_includes v s =
     (case v of
        Some (JStr t) \<Rightarrow> Inr (str_includes t s)
      | Some (JArr xs) \<Rightarrow> Inr (JStr s \<in> set xs)
      | _ \<Rightarrow> Inl TypeError)"

definition lower_char :: "char \<Rightarrow> char" where
  "lower_char c =
     (let n = (of_char c :: nat) in if 65 \<le> n \<and> n \<le> 90 then char_of (n + 32) else c)"

text \<open>
  \<open>v.toLowerCase()\<close> exists on strings only. The result is used for one test, whether
  it includes "usdc"; lowering the ASCII letters decides that test, since no character
  outside ASCII lowers to one of the letters u, s, d, c.
\<close>

definition call_toLowerCase :: "json option \<Rightarrow> js_error + json option" where
  "call_toLowerCase v =
     (case v of
        Some (JStr t) \<Rightarrow> Inr (Some (JStr (map lower_char t)))
      | _ \<Rightarrow> Inl TypeError)"

definition truthy :: "json option \<Rightarrow> bool" where
  "truthy v =
     (case v of
        None \<Rightarrow> False
      | Some JNull \<Rightarrow> False
      | Some (JBool b) \<Rightarrow> b
      | Some (JNum n) \<Rightarrow> num_truthy n
      | Some (JStr s) \<Rightarrow> s \<noteq> []
      | Some _ \<Rightarrow> True)"

fun join_comma :: "string list \<Rightarrow> string" where
  "join_comma [] = []"
| "join_comma [s] = s"
| "join_comma (s # t # ts) = s @ '','' @ join_comma (t # ts)"

text \<open>\<open>ToString\<close>, which \<open>parseInt\<close> applies to its argument.\<close>

fun json_toString :: "(rat \<Rightarrow> string) \<Rightarrow> json \<Rightarrow> string" where
  "json_toString fmt JNull = ''null''"
| "json_toString fmt (JBool b) = (if b then ''true'' else ''false'')"
| "json_toString fmt (JNum n) = number_toString fmt n"
| "json_toString fmt (JStr s) = s"
| "json_toString fmt (JArr xs) =
     join_comma (map (\<lambda>x. if x = JNull then [] else json_toString fmt x) xs)"
| "json_toString fmt (JObj members) = ''[object Object]''"

definition parseInt_value :: "(rat \<Rightarrow> string) \<Rightarrow> json option \<Rightarrow> number" where
  "parseInt_value fmt v =
     parseInt (case v of None \<Rightarrow> ''undefined'' | Some j \<Rightarrow> json_toString fmt j)"

text \<open>The predicate given to \<open>allResources.find\<close>.\<close>

definition is_usdc_resource :: "json \<Rightarrow> js_error + bool" where
  "is_usdc_resource resource =
     bind_err (get_prop (Some resource) ''type'') (\<lambda>ty.
     bind_err (call_includes ty USDC_METADATA) (\<lambda>a.
       if a then Inr True
       else
         bind_err (call_includes ty ''coin::CoinStore'') (\<lambda>b.
         bind_err (if b then bind_err (call_toLowerCase ty) (\<lambda>lower. call_includes lower ''usdc'')
                   else Inr False) (\<lambda>c.
           if c then Inr True else call_includes ty ''0x1::coin::CoinStore<0x''))))"

fun find_first :: "(json \<Rightarrow> js_error + bool) \<Rightarrow> json list \<Rightarrow> js_error + json option" where
  "find_first f [] = Inr None"
| "find_first f (x # xs) =
     bind_err (f x) (\<lambda>hit. if hit then Inr (Some x) else find_first f xs)"

text \<open>\<open>allResources.find(...)\<close>: only an array has \<open>find\<close>.\<close>

definition call_find :: "(json \<Rightarrow> js_error + bool) \<Rightarrow> json \<Rightarrow> js_error + json option" where
  "call_find f v = (case v of JArr xs \<Rightarrow> find_first f xs | _ \<Rightarrow> Inl TypeError)"

text \<open>
  The node as the lookup sees it: the balance view resolves to a string or rejects; each
  of the two REST requests gives the parsed body, or \<open>None\<close> when the request or the
  parsing rejects (the \<open>.catch\<close> then supplies \<open>[]\<close> and \<open>null\<close>).
\<close>

record node =
  balance_view :: "string \<Rightarrow> js_error + string"
  resources_request :: "string \<Rightarrow> json option"
  coin_store_request :: "string \<Rightarrow> json option"

text \<open>The inner \<open>try\<close> block: the balance a fallback found, \<open>None\<close> when it falls through,
  or the error it threw.\<close>

definition balance_fallback :: "(rat \<Rightarrow> string) \<Rightarrow> node \<Rightarrow> string \<Rightarrow> js_error + number option" where
  "balance_fallback fmt nd accountAddress =
     (let allResources = (case resources_request nd accountAddress of None \<Rightarrow> JArr [] | Some j \<Rightarrow> j)
      in bind_err (call_find is_usdc_resource allResources) (\<lambda>usdcResource.
           if truthy usdcResource
           then
             bind_err (get_prop usdcResource ''data'') (\<lambda>d.
             bind_err (get_prop d ''coin'') (\<lambda>coin.
               let v = opt_prop coin ''value''
               in if truthy v
                  then Inr (Some (num_div (parseInt_value fmt v) (Fin 1000000)))
                  else
                    bind_err (get_prop d ''balance'') (\<lambda>bal.
                      Inr (Some (num_div
                        (parseInt_value fmt (if truthy bal then bal else Some (JStr ''0'')))
                        (Fin 1000000))))))
           else
             (let coinStoreResponse =
                    (case coin_store_request nd accountAddress of None \<Rightarrow> Some JNull | Some j \<Rightarrow> Some j);
                  v = opt_prop (opt_prop (opt_prop coinStoreResponse ''data'') ''coin'') ''value''
              in if truthy v
                 then Inr (Some (num_div (parseInt_value fmt v) (Fin 1000000)))
                 else Inr None)))"

text \<open>The result is what the promise settles to: \<open>Inr\<close> a resolved number, \<open>Inl\<close> a rejection.\<close>

definition fetchUsdcBalance :: "(rat \<Rightarrow> string) \<Rightarrow> node \<Rightarrow> string \<Rightarrow> js_error + number" where
  "fetchUsdcBalance fmt nd accountAddress =
     (case balance_view nd accountAddress of
        Inr balanceStr \<Rightarrow>
          (let balance = parseInt10 balanceStr in Inr (num_div balance (Fin 1000000)))
      | Inl error \<Rightarrow>
          (case balance_fallback fmt nd accountAddress of
             Inr (Some found) \<Rightarrow> Inr found
           | Inr None \<Rightarrow> Inr (Fin 0)
           | Inl fallbackError \<Rightarrow> Inr (Fin 0)))"

section \<open>Sample inputs\<close>

definition network_error :: js_error where
  "network_error = JsError (Some ''Network Error'') ''Error: Network Error''"

text \<open>A ledger whose node cannot be reached: every view call rejects with a network error.\<close>

definition unreachable_ledger :: ledger where
  "unreachable_ledger =
     \<lparr>is_paused_view = Inl network_error,
      get_credit_info_view = (\<lambda>userAddress. Inl network_error)\<rparr>"

text \<open>A ledger with an open credit line: 250 USDC staked, 100 borrowed, 20 interest due.\<close>

definition sample_ledger :: ledger where
  "sample_ledger =
     \<lparr>is_paused_view = Inr False,
      get_credit_info_view =
        (\<lambda>userAddress. Inr (''250000000'', ''250000000'', ''100000000'', ''20000000'',
                             ''5000000'', ''1700000000'', True))\<rparr>"

text \<open>A ledger with an open credit line and no debt: 250 USDC staked, nothing borrowed.\<close>

definition debt_free_ledger :: ledger where
  "debt_free_ledger =
     \<lparr>is_paused_view = Inr False,
      get_credit_info_view =
        (\<lambda>userAddress. Inr (''250000000'', ''250000000'', ''0'', ''0'',
                             ''120000000'', ''0'', True))\<rparr>"

definition sample_config :: config where
  "sample_config = \<lparr>CONTRACT_ADDRESS = ''0xceb6'', ADMIN_ADDRESS = ''0xceb6''\<rparr>"

text \<open>On a text of decimal digits \<open>parseFloat\<close> returns the integer the digits denote.\<close>

definition parseFloat_digits :: "string \<Rightarrow> number" where
  "parseFloat_digits s = parseInt10 s"

definition accepting_signer :: "payload \<Rightarrow> js_error + string" where
  "accepting_signer p = Inr ''0x1234''"

definition sample_panel :: "string \<Rightarrow> number \<Rightarrow> panel_state" where
  "sample_panel typed withdrawable =
     \<lparr>connected = True, account = Some ''0xabc'', amount_input = typed,
      collateralStatus =
        Some \<lparr>hasActiveCreditLine = True, collateralAmount = Fin 250, status_creditLimit = Fin 250,
              status_currentDebt = (if withdrawable = Fin 0 then Fin 120 else Fin 0),
              status_availableCredit = Fin 130, canWithdraw = withdrawable\<rparr>\<rparr>"

text \<open>A borrow of 1 USDC, with the borrower field as given, in a transaction of the log.\<close>

definition borrowed_event :: "string option \<Rightarrow> chain_event" where
  "borrowed_event b =
     \<lparr>event_type = ''0xceb6::credit_manager::BorrowedEvent'',
      event_data = Some \<lparr>borrower = b, principal_amount = None, interest_amount = None,
                         collateral_amount = None, amount = Some ''1000000''\<rparr>\<rparr>"

definition sample_txn :: "bool \<Rightarrow> string option \<Rightarrow> string \<Rightarrow> txn" where
  "sample_txn ok b v =
     \<lparr>events = Some [borrowed_event b], success = Some ok,
      timestamp = Some ''1700000000000000'', version = Some v\<rparr>"

text \<open>A transaction with one event of the given type that carries 1 USDC and no borrower.\<close>

definition typed_txn :: "string \<Rightarrow> string \<Rightarrow> txn" where
  "typed_txn ty v =
     \<lparr>events = Some [\<lparr>event_type = ty,
                        event_data = Some \<lparr>borrower = None, principal_amount = None,
                                           interest_amount = None, collateral_amount = None,
                                           amount = Some ''1000000''\<rparr>\<rparr>],
      success = Some True, timestamp = Some ''1700000000000000'', version = Some v\<rparr>"

text \<open>A transaction whose only event is a borrow without a data object.\<close>

definition bare_txn :: "string \<Rightarrow> txn" where
  "bare_txn v =
     \<lparr>events = Some [\<lparr>event_type = ''0xceb6::credit_manager::BorrowedEvent'', event_data = None\<rparr>],
      success = Some True, timestamp = Some ''1700000000000000'', version = Some v\<rparr>"

text \<open>A clock reading 30 seconds after the sample transactions.\<close>

definition sample_now :: number where
  "sample_now = Fin 1700000030000"

definition sample_record :: "string \<Rightarrow> RecentTransaction" where
  "sample_record v =
     \<lparr>tx_kind = Listed borrow, tx_amount = Fin 1, tx_date = JustNow, tx_status = ''completed'',
      tx_reference = Some v\<rparr>"

text \<open>A node that cannot be reached, and a node that reports a balance of zero.\<close>

definition unreachable_node :: node where
  "unreachable_node =
     \<lparr>balance_view = (\<lambda>accountAddress. Inl network_error),
      resources_request = (\<lambda>accountAddress. None),
      coin_store_request = (\<lambda>accountAddress. None)\<rparr>"

definition empty_account_node :: node where
  "empty_account_node =
     \<lparr>balance_view = (\<lambda>accountAddress. Inr ''0''),
      resources_request = (\<lambda>accountAddress. Some (JArr [])),
      coin_store_request = (\<lambda>accountAddress. None)\<rparr>"

text \<open>A node whose view rejects and whose account is not found: the resources request
  answers with an error object, which is not an array.\<close>

definition account_not_found_node :: node where
  "account_not_found_node =
     \<lparr>balance_view = (\<lambda>accountAddress. Inl network_error),
      resources_request =
        (\<lambda>accountAddress. Some (JObj [(''message'', JStr ''Account not found''),
                                       (''error_code'', JStr ''account_not_found'')])),
      coin_store_request = (\<lambda>accountAddress. None)\<rparr>"

section \<open>Rounding to binary64\<close>

lemma round_half_even_of_int: "round_half_even (of_int k) = k"
  by (simp add: round_half_even_def)

lemma round_half_even_error: "\<bar>of_int (round_half_even m) - m\<bar> \<le> 1 / 2"
proof -
  have "of_int \<lfloor>m\<rfloor> \<le> m" "m < of_int \<lfloor>m\<rfloor> + 1" by linarith+
  then show ?thesis
    by (auto simp add: round_half_even_def Let_def abs_le_iff)
qed

lemma ilog2_bounds:
  assumes "0 < a"
  shows "2 powi (ilog2 a) \<le> a \<and> a < 2 powi (ilog2 a + 1)"
proof (cases "1 \<le> a")
  case True
  define m where "m = \<lfloor>a\<rfloor>"
  have m: "0 < m" "of_int m \<le> a" "a < of_int m + 1"
    using True by (auto simp: m_def) linarith+
  have b: "2 ^ nat (bitlen m - 1) \<le> m" "m < 2 ^ nat (bitlen m)"
    using bitlen_bounds[OF m(1)] by auto
  have bl: "1 \<le> bitlen m" using m(1) bitlen_eq_zero_iff[of m] bitlen_nonneg[of m] by linarith
  have e: "ilog2 a = bitlen m - 1" using True by (simp add: ilog2_def m_def)
  have "(2::rat) powi (bitlen m - 1) = of_int (2 ^ nat (bitlen m - 1))"
    using bl by (simp add: power_int_nonneg_exp)
  also have "\<dots> \<le> of_int m" using b(1) by (simp only: of_int_le_iff)
  finally have lo: "2 powi (bitlen m - 1) \<le> a" using m(2) by linarith
  have "m + 1 \<le> 2 ^ nat (bitlen m)" using b(2) by simp
  then have "(of_int (m + 1) :: rat) \<le> of_int (2 ^ nat (bitlen m))" by (simp only: of_int_le_iff)
  also have "\<dots> = 2 powi (bitlen m)" using bl by (simp add: power_int_nonneg_exp)
  finally have hi: "a < 2 powi (bitlen m - 1 + 1)" using m(3) by simp
  show ?thesis using lo hi e by simp
next
  case False
  define b where "b = 1 / a"
  define c where "c = \<lceil>b\<rceil> - 1"
  have b1: "1 < b" using False assms by (simp add: b_def)
  have c: "0 < c" "of_int c < b" "b \<le> of_int c + 1"
    using b1 by (auto simp: c_def) linarith+
  have bb: "2 ^ nat (bitlen c - 1) \<le> c" "c < 2 ^ nat (bitlen c)"
    using bitlen_bounds[OF c(1)] by auto
  have bl: "1 \<le> bitlen c" using c(1) bitlen_eq_zero_iff[of c] bitlen_nonneg[of c] by linarith
  have e: "ilog2 a = - bitlen c" using False by (simp add: ilog2_def c_def b_def)
  have "c + 1 \<le> 2 ^ nat (bitlen c)" using bb(2) by simp
  then have "(of_int (c + 1) :: rat) \<le> of_int (2 ^ nat (bitlen c))" by (simp only: of_int_le_iff)
  also have "\<dots> = 2 powi (bitlen c)" using bl by (simp add: power_int_nonneg_exp)
  finally have "b \<le> 2 powi (bitlen c)" using c(3) by simp
  then have "1 / (2 powi (bitlen c)) \<le> 1 / b"
    using b1 by (intro divide_left_mono) auto
  then have lo: "2 powi (- bitlen c) \<le> a"
    using assms by (simp add: b_def power_int_minus_divide)
  have "(2::rat) powi (bitlen c - 1) = of_int (2 ^ nat (bitlen c - 1))"
    using bl by (simp add: power_int_nonneg_exp)
  also have "\<dots> \<le> of_int c" using bb(1) by (simp only: of_int_le_iff)
  finally have "2 powi (bitlen c - 1) < b" using c(2) by linarith
  then have "1 / b < 1 / (2 powi (bitlen c - 1))"
    using b1 by (intro divide_strict_left_mono) (auto intro!: mult_pos_pos)
  then have hi: "a < 2 powi (- bitlen c + 1)"
    using assms by (simp add: b_def power_int_minus_divide[symmetric])
  show ?thesis using lo hi e by simp
qed

lemma ilog2_eqI:
  assumes "2 powi e \<le> a" "a < 2 powi (e + 1)"
  shows "ilog2 a = e"
proof -
  have a: "0 < a" using assms(1) zero_less_power_int[of "2::rat" e] by linarith
  note b = ilog2_bounds[OF a]
  have "\<not> ilog2 a < e"
  proof
    assume "ilog2 a < e"
    then have "(2::rat) powi (ilog2 a + 1) \<le> 2 powi e" by (intro power_int_increasing) auto
    with b assms show False by linarith
  qed
  moreover have "\<not> e < ilog2 a"
  proof
    assume "e < ilog2 a"
    then have "(2::rat) powi (e + 1) \<le> 2 powi (ilog2 a)" by (intro power_int_increasing) auto
    with b assms show False by linarith
  qed
  ultimately show ?thesis by linarith
qed


lemma ilog2_ge: "2 powi n \<le> a \<Longrightarrow> n \<le> ilog2 a"
proof (rule ccontr)
  assume h: "2 powi n \<le> a" and "\<not> n \<le> ilog2 a"
  then have "ilog2 a + 1 \<le> n" by simp
  then have "(2::rat) powi (ilog2 a + 1) \<le> 2 powi n" by (intro power_int_increasing) auto
  moreover have "0 < a" using h zero_less_power_int[of "2::rat" n] by linarith
  ultimately show False using ilog2_bounds[of a] h by linarith
qed

lemma ilog2_less: "0 < a \<Longrightarrow> a < 2 powi n \<Longrightarrow> ilog2 a < n"
proof (rule ccontr)
  assume a: "0 < a" and h: "a < 2 powi n" and "\<not> ilog2 a < n"
  then have "(2::rat) powi n \<le> 2 powi (ilog2 a)" by (intro power_int_increasing) auto
  then show False using ilog2_bounds[OF a] h by linarith
qed

lemma ulp_pos: "0 < ulp a"
  by (simp add: ulp_def)

lemma rnd_mag_error: "\<bar>rnd_mag a - a\<bar> \<le> ulp a / 2"
proof -
  have "rnd_mag a - a = (of_int (round_half_even (a / ulp a)) - a / ulp a) * ulp a"
    using ulp_pos[of a] by (simp add: rnd_mag_def algebra_simps)
  then have "\<bar>rnd_mag a - a\<bar> = \<bar>of_int (round_half_even (a / ulp a)) - a / ulp a\<bar> * ulp a"
    using ulp_pos[of a] by (simp add: abs_mult)
  also have "\<dots> \<le> (1 / 2) * ulp a"
    using round_half_even_error[of "a / ulp a"] ulp_pos[of a]
    by (intro mult_right_mono) auto
  finally show ?thesis by simp
qed

lemma rnd_mag_exact:
  assumes "a = of_int n * ulp a"
  shows "rnd_mag a = a"
proof -
  have "a / ulp a = of_int n" using assms ulp_pos[of a] by (simp add: field_simps)
  then show ?thesis using assms by (simp add: rnd_mag_def round_half_even_of_int)
qed

lemma rnd_mag_nonneg: "0 \<le> a \<Longrightarrow> 0 \<le> rnd_mag a"
proof -
  assume a: "0 \<le> a"
  have "0 \<le> a / ulp a" using a ulp_pos[of a] by simp
  then have "0 \<le> \<lfloor>a / ulp a\<rfloor>" by simp
  then have "0 \<le> round_half_even (a / ulp a)"
    by (auto simp: round_half_even_def Let_def)
  then show ?thesis using ulp_pos[of a] by (simp add: rnd_mag_def)
qed

lemma rnd_mag_of_int:
  assumes "0 < k" "k \<le> 2 ^ 53"
  shows "rnd_mag (of_int k) = of_int k"
proof -
  let ?a = "of_int k :: rat"
  have a1: "2 powi 0 \<le> ?a" using assms by simp
  have e0: "0 \<le> ilog2 ?a" by (rule ilog2_ge[OF a1])
  have "?a < 2 powi 54"
  proof -
    have "k < 2 ^ 54" using assms by simp
    then have "?a < of_int (2 ^ 54)" by (simp only: of_int_less_iff)
    then show ?thesis by simp
  qed
  then have e1: "ilog2 ?a < 54" using assms by (intro ilog2_less) auto
  have u: "ulp ?a = 2 powi (ilog2 ?a - 52)" using e0 by (simp add: ulp_def max_def)
  show ?thesis
  proof (cases "ilog2 ?a \<le> 52")
    case True
    then have "2 powi (52 - ilog2 ?a) = (of_int (2 ^ nat (52 - ilog2 ?a)) :: rat)"
      by (simp add: power_int_nonneg_exp)
    moreover have "(2::rat) powi (52 - ilog2 ?a) * 2 powi (ilog2 ?a - 52) = 1"
      by (simp add: power_int_add[symmetric])
    ultimately have "?a = of_int (k * 2 ^ nat (52 - ilog2 ?a)) * ulp ?a"
      by (simp add: u mult.assoc)
    then show ?thesis by (rule rnd_mag_exact)
  next
    case False
    then have e: "ilog2 ?a = 53" using e1 by simp
    have "2 powi 53 \<le> ?a" using ilog2_bounds[of ?a] assms e by simp
    then have "of_int (2 ^ 53) \<le> ?a" by simp
    then have "2 ^ 53 \<le> k" by (simp only: of_int_le_iff)
    then have k: "k = 2 ^ 53" using assms by simp
    have "ulp ?a = 2" using u e by simp
    then have "?a = of_int (2 ^ 52) * ulp ?a" by (simp add: k)
    then show ?thesis by (rule rnd_mag_exact)
  qed
qed

lemma rnd_of_int:
  assumes "\<bar>k\<bar> \<le> 2 ^ 53"
  shows "rnd (of_int k) = Fin (of_int k)"
proof -
  have big: "(of_int j :: rat) < 2 ^ 1024" if "j \<le> 2 ^ 53" for j :: int
  proof -
    have "j < 2 ^ 1024" using that by (rule order_le_less_trans) simp
    then have "(of_int j :: rat) < of_int (2 ^ 1024)" by (simp only: of_int_less_iff)
    then show ?thesis by simp
  qed
  consider "k = 0" | "0 < k" | "k < 0" by linarith
  then show ?thesis
  proof cases
    case 1
    then show ?thesis by (simp add: rnd_def)
  next
    case 2
    then have "rnd_mag (of_int k) = of_int k" using assms by (intro rnd_mag_of_int) auto
    then show ?thesis using 2 big[of k] assms by (simp add: rnd_def)
  next
    case 3
    then have "rnd_mag (of_int (- k)) = of_int (- k)" using assms by (intro rnd_mag_of_int) auto
    then show ?thesis using 3 big[of "- k"] assms by (simp add: rnd_def)
  qed
qed

lemma rnd_numeral: "numeral k \<le> (2::int) ^ 53 \<Longrightarrow> rnd (numeral k) = Fin (numeral k)"
  using rnd_of_int[of "numeral k"] by simp

lemma rnd_zero: "rnd 0 = Fin 0"
  by (simp add: rnd_def)

lemma rnd_one: "rnd 1 = Fin 1"
  using rnd_of_int[of 1] by simp

lemmas parse_eval = parseInt10_def parseInt_def strip_sign_def white_length_def white_space_def parse_digits_def
  digit_val_def hex_val_def to_number_def digit_or_zero_def Let_def

text \<open>White space beyond ASCII is skipped too: U+00A0, a tab and U+FEFF before "12".\<close>

lemma parseInt10_skips_white_space:
  "parseInt10 [CHR 0xC2, CHR 0xA0, CHR 0x09, CHR 0xEF, CHR 0xBB, CHR 0xBF, CHR ''1'', CHR ''2''] = Fin 12"
  by (simp add: parse_eval rnd_numeral)

section \<open>Credit state reader\<close>

lemma probe_failure_not_initialized:
  "is_paused_view l = Inl error \<Longrightarrow> \<not> checkCreditManagerInitialized l"
  by (simp add: checkCreditManagerInitialized_def)

lemma probe_success_initialized:
  "is_paused_view l = Inr b \<Longrightarrow> checkCreditManagerInitialized l"
  by (simp add: checkCreditManagerInitialized_def)

text \<open>
  Claim C1 says that a probe failure other than "resource not found" makes the read
  return \<open>null\<close>. With a node that cannot be reached the probe rejects with a network
  error, whose message holds none of the resource-not-found texts, and the read still
  returns a position.
\<close>

theorem getCreditLineInfo_network_error_not_null:
  "is_paused_view unreachable_ledger = Inl network_error
   \<and> \<not> message_includes network_error ''Failed to borrow global resource''
   \<and> \<not> message_includes network_error ''resource_not_found''
   \<and> \<not> message_includes network_error ''Resource not found''
   \<and> getCreditLineInfo unreachable_ledger ''0xabc'' \<noteq> None"
  by (simp add: unreachable_ledger_def network_error_def message_includes_def
      getCreditLineInfo_def checkCreditManagerInitialized_def)

text \<open>
  Claim C1, as the code has it: whenever the probe query rejects, with whatever error,
  \<open>getCreditLineInfo\<close> returns the inactive position whose monetary fields are all
  zero. It returns \<open>null\<close> exactly when the probe resolves and the credit-info query
  rejects with a message that holds neither "Function not found" nor
  "FUNCTION_NOT_FOUND".
\<close>

theorem getCreditLineInfo_probe_failure:
  "(is_paused_view l = Inl error \<longrightarrow>
      getCreditLineInfo l userAddress =
        Some \<lparr>creditLimit = Fin 0, currentDebt = Fin 0, borrowed = Fin 0, interestAccrued = Fin 0,
              availableCredit = Fin 0, isActive = False, repaymentDueDate = Fin 0,
              collateral = Fin 0, totalRepaid = Fin 0\<rparr>)
   \<and> (getCreditLineInfo l userAddress = None \<longleftrightarrow>
        (\<exists>b e. is_paused_view l = Inr b \<and> get_credit_info_view l userAddress = Inl e
           \<and> \<not> message_includes e ''Function not found''
           \<and> \<not> message_includes e ''FUNCTION_NOT_FOUND''))"
proof (cases "is_paused_view l")
  case (Inl e)
  then show ?thesis
    by (simp add: getCreditLineInfo_def probe_failure_not_initialized zero_credit_line_def)
next
  case (Inr b)
  then have "checkCreditManagerInitialized l" by (rule probe_success_initialized)
  then show ?thesis using Inr
    by (cases "get_credit_info_view l userAddress")
       (auto simp add: getCreditLineInfo_def Let_def split: prod.splits)
qed

theorem getCreditLineInfo_probe_failure_witness:
  "is_paused_view unreachable_ledger = Inl network_error
   \<and> getCreditLineInfo unreachable_ledger ''0xabc'' =
        Some \<lparr>creditLimit = Fin 0, currentDebt = Fin 0, borrowed = Fin 0, interestAccrued = Fin 0,
              availableCredit = Fin 0, isActive = False, repaymentDueDate = Fin 0,
              collateral = Fin 0, totalRepaid = Fin 0\<rparr>"
proof -
  have h: "is_paused_view unreachable_ledger = Inl network_error"
    by (simp add: unreachable_ledger_def)
  show ?thesis
    using h getCreditLineInfo_probe_failure[of unreachable_ledger network_error "''0xabc''"]
    by simp
qed

lemma Math_max_zero_not_negative: "\<not> num_lt (Math_max (Fin 0) x) (Fin 0)"
  by (cases x) (simp_all add: Math_max_def)

text \<open>
  Claim C3: every position the reader produces has
  \<open>currentDebt = borrowed + interestAccrued\<close> and
  \<open>availableCredit = Math.max(0, creditLimit - currentDebt)\<close>, and its
  \<open>availableCredit\<close> is never below zero, whatever strings the ledger returned.
\<close>

theorem credit_position_derived_fields:
  assumes "getCreditLineInfo l userAddress = Some p"
  shows "currentDebt p = num_add (borrowed p) (interestAccrued p)
         \<and> availableCredit p = Math_max (Fin 0) (num_sub (creditLimit p) (currentDebt p))
         \<and> \<not> num_lt (availableCredit p) (Fin 0)"
proof -
  have z: "num_add (Fin 0) (Fin 0) = Fin 0" "num_sub (Fin 0) (Fin 0) = Fin 0"
    "Math_max (Fin 0) (Fin 0) = Fin 0"
    by (simp_all add: num_sub_def rnd_zero Math_max_def)
  have zero: ?thesis if "p = zero_credit_line"
    using that z by (simp add: zero_credit_line_def)
  show ?thesis
  proof (cases "checkCreditManagerInitialized l")
    case False
    then have "p = zero_credit_line" using assms by (simp add: getCreditLineInfo_def)
    then show ?thesis by (rule zero)
  next
    case True
    show ?thesis
    proof (cases "get_credit_info_view l userAddress")
      case (Inl e)
      then have "p = zero_credit_line" using assms True
        by (simp add: getCreditLineInfo_def split: if_splits)
      then show ?thesis by (rule zero)
    next
      case (Inr t)
      then show ?thesis using assms True
        by (cases t) (auto simp add: getCreditLineInfo_def Let_def Math_max_zero_not_negative)
    qed
  qed
qed

theorem credit_position_derived_fields_witness:
  "getCreditLineInfo sample_ledger ''0xabc'' =
     Some \<lparr>creditLimit = Fin 250, currentDebt = Fin 120, borrowed = Fin 100,
           interestAccrued = Fin 20, availableCredit = Fin 130, isActive = True,
           repaymentDueDate = Fin 1700000000, collateral = Fin 250, totalRepaid = Fin 5\<rparr>
   \<and> Fin 120 = num_add (Fin 100) (Fin 20)
   \<and> Fin 130 = Math_max (Fin 0) (num_sub (Fin 250) (Fin 120))
   \<and> \<not> num_lt (Fin 130) (Fin 0)"
proof -
  have h: "getCreditLineInfo sample_ledger ''0xabc'' =
     Some \<lparr>creditLimit = Fin 250, currentDebt = Fin 120, borrowed = Fin 100,
           interestAccrued = Fin 20, availableCredit = Fin 130, isActive = True,
           repaymentDueDate = Fin 1700000000, collateral = Fin 250, totalRepaid = Fin 5\<rparr>"
    by (simp add: getCreditLineInfo_def checkCreditManagerInitialized_def sample_ledger_def
        unitsToUsdc_def parse_eval rnd_numeral num_sub_def Math_max_def)
  show ?thesis using h credit_position_derived_fields[OF h]
    by (simp add: rnd_numeral num_sub_def Math_max_def)
qed

section \<open>Withdrawable collateral\<close>

text \<open>
  Claim C4: for every credit snapshot, the withdrawable amount in the status that
  \<open>checkCollateralStatus\<close> builds from it is 0 whenever the snapshot's debt is above
  zero, and is the snapshot's collateral when its debt is zero; the status reports the
  snapshot's debt and collateral unchanged. Without a snapshot the status has debt,
  collateral and withdrawable amount 0.
\<close>

theorem canWithdraw_only_at_zero_debt:
  "canWithdraw (collateral_status_of (Some info))
     = (if num_eq (currentDebt info) (Fin 0) then collateral info else Fin 0)
   \<and> (num_gt (currentDebt info) (Fin 0) \<longrightarrow> canWithdraw (collateral_status_of (Some info)) = Fin 0)
   \<and> (num_eq (currentDebt info) (Fin 0) \<longrightarrow>
        canWithdraw (collateral_status_of (Some info)) = collateral info)
   \<and> status_currentDebt (collateral_status_of (Some info)) = currentDebt info
   \<and> collateralAmount (collateral_status_of (Some info)) = collateral info
   \<and> (getCreditLineInfo l userAddress = Some info \<longrightarrow>
        checkCollateralStatus l userAddress = Some (collateral_status_of (Some info)))
   \<and> (getCreditLineInfo l userAddress = None \<longrightarrow>
        checkCollateralStatus l userAddress = Some (collateral_status_of None))
   \<and> canWithdraw (collateral_status_of None) = Fin 0
   \<and> status_currentDebt (collateral_status_of None) = Fin 0
   \<and> collateralAmount (collateral_status_of None) = Fin 0"
proof -
  have pos: "canWithdraw (collateral_status_of (Some info)) = Fin 0"
    if "num_gt (currentDebt info) (Fin 0)"
    using that
    by (cases "currentDebt info") (auto simp add: collateral_status_of_def Let_def num_gt_def num_eq_def)
  show ?thesis
    using pos by (simp add: collateral_status_of_def Let_def checkCollateralStatus_def)
qed

theorem canWithdraw_only_at_zero_debt_witness:
  "getCreditLineInfo debt_free_ledger ''0xabc'' =
     Some \<lparr>creditLimit = Fin 250, currentDebt = Fin 0, borrowed = Fin 0,
           interestAccrued = Fin 0, availableCredit = Fin 250, isActive = True,
           repaymentDueDate = Fin 0, collateral = Fin 250, totalRepaid = Fin 120\<rparr>
   \<and> num_eq (Fin 0) (Fin 0)
   \<and> canWithdraw (the (checkCollateralStatus debt_free_ledger ''0xabc'')) = Fin 250
   \<and> getCreditLineInfo sample_ledger ''0xabc'' =
     Some \<lparr>creditLimit = Fin 250, currentDebt = Fin 120, borrowed = Fin 100,
           interestAccrued = Fin 20, availableCredit = Fin 130, isActive = True,
           repaymentDueDate = Fin 1700000000, collateral = Fin 250, totalRepaid = Fin 5\<rparr>
   \<and> num_gt (Fin 120) (Fin 0)
   \<and> canWithdraw (the (checkCollateralStatus sample_ledger ''0xabc'')) = Fin 0"
proof -
  let ?free = "\<lparr>creditLimit = Fin 250, currentDebt = Fin 0, borrowed = Fin 0,
           interestAccrued = Fin 0, availableCredit = Fin 250, isActive = True,
           repaymentDueDate = Fin 0, collateral = Fin 250, totalRepaid = Fin 120\<rparr>"
  let ?owing = "\<lparr>creditLimit = Fin 250, currentDebt = Fin 120, borrowed = Fin 100,
           interestAccrued = Fin 20, availableCredit = Fin 130, isActive = True,
           repaymentDueDate = Fin 1700000000, collateral = Fin 250, totalRepaid = Fin 5\<rparr>"
  have a: "getCreditLineInfo debt_free_ledger ''0xabc'' = Some ?free"
    by (simp add: getCreditLineInfo_def checkCreditManagerInitialized_def debt_free_ledger_def
        unitsToUsdc_def parse_eval rnd_numeral rnd_zero num_sub_def Math_max_def)
  have b: "getCreditLineInfo sample_ledger ''0xabc'' = Some ?owing"
    by (simp add: getCreditLineInfo_def checkCreditManagerInitialized_def sample_ledger_def
        unitsToUsdc_def parse_eval rnd_numeral num_sub_def Math_max_def)
  have z: "num_eq (currentDebt ?free) (Fin 0)" by (simp add: num_eq_def)
  have g: "num_gt (currentDebt ?owing) (Fin 0)" by (simp add: num_gt_def)
  note free = canWithdraw_only_at_zero_debt[of ?free debt_free_ledger "''0xabc''"]
  note owing = canWithdraw_only_at_zero_debt[of ?owing sample_ledger "''0xabc''"]
  have c: "canWithdraw (the (checkCollateralStatus debt_free_ledger ''0xabc'')) = Fin 250"
    using free a z by (simp add: num_eq_def)
  have d: "canWithdraw (the (checkCollateralStatus sample_ledger ''0xabc'')) = Fin 0"
    using owing b g by (simp add: num_eq_def num_gt_def)
  show ?thesis using a b c d by (simp add: num_eq_def num_gt_def)
qed

section \<open>Repayment allocation\<close>

lemma num_lt_zero_truthy: "num_lt (Fin 0) x \<Longrightarrow> num_truthy x \<and> \<not> num_le x (Fin 0)"
  by (cases x) (auto simp add: num_truthy_def num_le_def num_eq_def)

lemma num_le_not_gt: "num_le x y \<Longrightarrow> \<not> num_gt x y"
  by (cases x; cases y) (auto simp add: num_le_def num_gt_def num_eq_def)

text \<open>
  Claim C5: a custom amount with \<open>0 < amount \<le> principal + interest\<close> and
  \<open>amount \<le> balance\<close> is allocated interest first:
  \<open>interestPayment = Math.min(amount, interest)\<close> and
  \<open>principalPayment = amount - interestPayment\<close>. An amount above the total debt or above
  the balance ends in an error toast and \<open>onRepay\<close> is not called. With principal 100
  and interest 20, the amount 50 gives interest 20 and principal 30, and the amount 15
  gives interest 15 and principal 0.
\<close>

theorem handleRepay_interest_first:
  "(num_lt (Fin 0) (parseFloat customAmount)
      \<and> num_le (parseFloat customAmount) (num_add principal' interest)
      \<and> num_le (parseFloat customAmount) usdcBalance \<longrightarrow>
    handleRepay parseFloat custom customAmount principal' interest usdcBalance =
      OnRepay (num_sub (parseFloat customAmount) (Math_min (parseFloat customAmount) interest))
              (Math_min (parseFloat customAmount) interest))
   \<and> (num_gt (parseFloat customAmount) (num_add principal' interest)
        \<or> num_gt (parseFloat customAmount) usdcBalance \<longrightarrow>
      (\<exists>msg. handleRepay parseFloat custom customAmount principal' interest usdcBalance = ToastError msg))
   \<and> (parseFloat customAmount = Fin 50 \<and> num_le (Fin 50) usdcBalance \<longrightarrow>
      handleRepay parseFloat custom customAmount (Fin 100) (Fin 20) usdcBalance = OnRepay (Fin 30) (Fin 20))
   \<and> (parseFloat customAmount = Fin 15 \<and> num_le (Fin 15) usdcBalance \<longrightarrow>
      handleRepay parseFloat custom customAmount (Fin 100) (Fin 20) usdcBalance = OnRepay (Fin 0) (Fin 15))"
proof -
  have general: "handleRepay parseFloat custom customAmount p i bal =
      OnRepay (num_sub (parseFloat customAmount) (Math_min (parseFloat customAmount) i))
              (Math_min (parseFloat customAmount) i)"
    if "num_lt (Fin 0) (parseFloat customAmount)"
       "num_le (parseFloat customAmount) (num_add p i)"
       "num_le (parseFloat customAmount) bal" for p i bal
    using num_lt_zero_truthy[OF that(1)] num_le_not_gt[OF that(2)] num_le_not_gt[OF that(3)]
    by (simp add: handleRepay_def Let_def)
  have reject: "\<exists>msg. handleRepay parseFloat custom customAmount principal' interest usdcBalance = ToastError msg"
    if "num_gt (parseFloat customAmount) (num_add principal' interest)
        \<or> num_gt (parseFloat customAmount) usdcBalance"
    using that by (auto simp add: handleRepay_def Let_def)
  have ex50: "handleRepay parseFloat custom customAmount (Fin 100) (Fin 20) usdcBalance = OnRepay (Fin 30) (Fin 20)"
    if "parseFloat customAmount = Fin 50" "num_le (Fin 50) usdcBalance"
    using general[of "Fin 100" "Fin 20" usdcBalance] that
    by (simp add: rnd_numeral num_le_def num_eq_def Math_min_def num_sub_def)
  have ex15: "handleRepay parseFloat custom customAmount (Fin 100) (Fin 20) usdcBalance = OnRepay (Fin 0) (Fin 15)"
    if "parseFloat customAmount = Fin 15" "num_le (Fin 15) usdcBalance"
    using general[of "Fin 100" "Fin 20" usdcBalance] that
    by (simp add: rnd_numeral rnd_zero num_le_def num_eq_def Math_min_def num_sub_def)
  show ?thesis using general reject ex50 ex15 by blast
qed

theorem handleRepay_interest_first_witness:
  "num_lt (Fin 0) (parseFloat_digits ''50'')
   \<and> num_le (parseFloat_digits ''50'') (num_add (Fin 100) (Fin 20))
   \<and> num_le (parseFloat_digits ''50'') (Fin 500)
   \<and> handleRepay parseFloat_digits custom ''50'' (Fin 100) (Fin 20) (Fin 500) = OnRepay (Fin 30) (Fin 20)
   \<and> num_gt (parseFloat_digits ''121'') (num_add (Fin 100) (Fin 20))
   \<and> handleRepay parseFloat_digits custom ''121'' (Fin 100) (Fin 20) (Fin 500) = ToastError ''Amount exceeds total debt''"
proof -
  have v: "parseFloat_digits ''50'' = Fin 50" "parseFloat_digits ''121'' = Fin 121"
    by (simp_all add: parseFloat_digits_def parse_eval rnd_numeral)
  have s: "num_add (Fin 100) (Fin 20) = Fin 120" by (simp add: rnd_numeral)
  have h: "num_lt (Fin 0) (parseFloat_digits ''50'')"
    "num_le (parseFloat_digits ''50'') (num_add (Fin 100) (Fin 20))"
    "num_le (parseFloat_digits ''50'') (Fin 500)"
    "num_gt (parseFloat_digits ''121'') (num_add (Fin 100) (Fin 20))"
    by (simp_all add: v rnd_numeral num_le_def num_gt_def)
  have r: "handleRepay parseFloat_digits custom ''121'' (Fin 100) (Fin 20) (Fin 500) = ToastError ''Amount exceeds total debt''"
    by (simp add: handleRepay_def v rnd_numeral num_truthy_def num_le_def num_eq_def num_gt_def)
  show ?thesis
    using h r v handleRepay_interest_first[of parseFloat_digits "''50''" "Fin 100" "Fin 20" "Fin 500"]
    by (simp add: rnd_numeral Math_min_def num_sub_def)
qed

section \<open>Withdraw validation\<close>

text \<open>
  Claim C6: when the requested amount is strictly greater than the withdrawable
  collateral, and so for any positive amount when that value is 0, the handler's only
  effect is to set an error message: the wallet is not asked to sign and nothing is
  fetched.
\<close>

theorem withdraw_rejects_excess:
  "collateralStatus st = Some status
   \<and> (num_gt (parseFloat (amount_input st)) (canWithdraw status)
        \<or> (canWithdraw status = Fin 0 \<and> num_gt (parseFloat (amount_input st)) (Fin 0))) \<longrightarrow>
   (\<exists>msg. handleWithdrawCollateral parseFloat fmt cfg signAndSubmitTransaction st = [SetError (Some msg)])
   \<and> (\<forall>p. SignAndSubmit p \<notin> set (handleWithdrawCollateral parseFloat fmt cfg signAndSubmitTransaction st))
   \<and> LoadData \<notin> set (handleWithdrawCollateral parseFloat fmt cfg signAndSubmitTransaction st)"
  by (auto simp add: handleWithdrawCollateral_def Let_def)

theorem withdraw_rejects_excess_witness:
  "collateralStatus (sample_panel ''5'' (Fin 0)) = Some \<lparr>hasActiveCreditLine = True, collateralAmount = Fin 250,
       status_creditLimit = Fin 250, status_currentDebt = Fin 120, status_availableCredit = Fin 130,
       canWithdraw = Fin 0\<rparr>
   \<and> num_gt (parseFloat_digits (amount_input (sample_panel ''5'' (Fin 0)))) (Fin 0)
   \<and> handleWithdrawCollateral parseFloat_digits plain_fmt sample_config accepting_signer
        (sample_panel ''5'' (Fin 0)) = [SetError (Some (MaximumWithdrawable (Fin 0)))]"
proof -
  let ?status = "\<lparr>hasActiveCreditLine = True, collateralAmount = Fin 250,
       status_creditLimit = Fin 250, status_currentDebt = Fin 120, status_availableCredit = Fin 130,
       canWithdraw = Fin 0\<rparr>"
  have v: "parseFloat_digits ''5'' = Fin 5"
    by (simp add: parseFloat_digits_def parse_eval rnd_numeral)
  have a: "collateralStatus (sample_panel ''5'' (Fin 0)) = Some ?status"
    by (simp add: sample_panel_def)
  have b: "num_gt (parseFloat_digits (amount_input (sample_panel ''5'' (Fin 0)))) (Fin 0)"
    by (simp add: sample_panel_def v num_gt_def)
  have c: "handleWithdrawCollateral parseFloat_digits plain_fmt sample_config accepting_signer
        (sample_panel ''5'' (Fin 0)) = [SetError (Some (MaximumWithdrawable (Fin 0)))]"
    by (simp add: handleWithdrawCollateral_def sample_panel_def v num_gt_def num_le_def num_eq_def
        num_truthy_def)
  show ?thesis
    using a b c withdraw_rejects_excess[of "sample_panel ''5'' (Fin 0)" ?status parseFloat_digits
        plain_fmt sample_config accepting_signer]
    by simp
qed

lemma withdraw_accepts_within_limit:
  assumes "connected st" "account st = Some a" "collateralStatus st = Some status"
    "num_lt (Fin 0) (parseFloat (amount_input st))"
    "num_le (parseFloat (amount_input st)) (canWithdraw status)"
  shows "SignAndSubmit (withdraw_payload fmt cfg (parseFloat (amount_input st)))
           \<in> set (handleWithdrawCollateral parseFloat fmt cfg signAndSubmitTransaction st)"
  using assms num_lt_zero_truthy[OF assms(4)] num_le_not_gt[OF assms(5)]
  by (simp add: handleWithdrawCollateral_def Let_def)

lemma withdraw_full_collateral_example:
  "handleWithdrawCollateral parseFloat_digits plain_fmt sample_config accepting_signer
     (sample_panel ''250'' (Fin 250)) =
   [SetLoading True, SetError None, SetSuccess None,
    SignAndSubmit \<lparr>function_name = ''0xceb6::credit_manager::withdraw_collateral'',
                   functionArguments = [''0xceb6'', ''250000000'']\<rparr>,
    SetSuccess (Some (WithdrewCollateral (Fin 250))), SetAmount [], LoadData, SetLoading False]"
proof -
  have v: "parseFloat_digits ''250'' = Fin 250"
    by (simp add: parseFloat_digits_def parse_eval rnd_numeral)
  have u: "usdcToUnits plain_fmt (Fin 250) = ''250000000''"
    by (simp add: usdcToUnits_def rnd_numeral number_toString_def int_toString_def
        nat_toString.simps digit_char_def)
  show ?thesis
    by (simp add: handleWithdrawCollateral_def sample_panel_def v u num_gt_def num_le_def num_eq_def
        num_truthy_def withdraw_payload_def withdrawCollateral_def sample_config_def
        accepting_signer_def)
qed

section \<open>Activity history\<close>

lemma scan_events_feed:
  assumes "scan_events cfg Date_now borrowerAddress t evs results = Inr rs"
    and "success t \<noteq> Some False"
  shows "map Some rs =
           map Some results
           @ map (record_of cfg Date_now) (filter (kept cfg borrowerAddress) (map (Pair t) evs))"
  using assms
proof (induction evs arbitrary: results)
  case Nil
  then show ?case by simp
next
  case (Cons event rest)
  show ?case
  proof (cases "EVENT_TYPE_MAP cfg (event_type event)")
    case None
    then show ?thesis using Cons by (simp add: kept_def)
  next
    case (Some txType)
    show ?thesis
    proof (cases "foreign_borrower borrowerAddress event")
      case True
      then show ?thesis using Cons Some by (simp add: kept_def)
    next
      case False
      show ?thesis
      proof (cases "event_data event")
        case None
        then show ?thesis using Cons.prems Some False by simp
      next
        case d: (Some d)
        have "scan_events cfg Date_now borrowerAddress t rest
                (results @ [build_record Date_now t txType d]) = Inr rs"
          using Cons.prems Some False d by simp
        from Cons.IH[OF this Cons.prems(2)] show ?thesis
          using Some False d Cons.prems(2) by (simp add: kept_def record_of_def)
      qed
    qed
  qed
qed

lemma event_pairs_Cons:
  "event_pairs (t # txns) =
     map (Pair t) (case events t of None \<Rightarrow> [] | Some evs \<Rightarrow> evs) @ event_pairs txns"
  by (simp add: event_pairs_def)

lemma failed_txn_not_kept:
  "success t = Some False \<Longrightarrow> filter (kept cfg borrowerAddress) (map (Pair t) evs) = []"
  by (induction evs) (simp_all add: kept_def)

lemma scan_txns_feed:
  assumes "scan_txns cfg Date_now borrowerAddress limit txns results = Inr rs"
  shows "take limit (map Some rs) =
           take limit (map Some results
             @ map (record_of cfg Date_now) (filter (kept cfg borrowerAddress) (event_pairs txns)))"
  using assms
proof (induction txns arbitrary: results)
  case Nil
  then show ?case by (simp add: event_pairs_def)
next
  case (Cons t txns)
  show ?case
  proof (cases "events t")
    case None
    then show ?thesis using Cons by (simp add: event_pairs_Cons)
  next
    case (Some evs)
    show ?thesis
    proof (cases "success t = Some False")
      case True
      then show ?thesis using Cons Some
        by (simp add: event_pairs_Cons failed_txn_not_kept)
    next
      case False
      show ?thesis
      proof (cases "scan_events cfg Date_now borrowerAddress t evs results")
        case (Inl e)
        then show ?thesis using Cons.prems Some False by simp
      next
        case (Inr results')
        note feed = scan_events_feed[OF Inr False]
        let ?Y = "map (record_of cfg Date_now) (filter (kept cfg borrowerAddress) (event_pairs txns))"
        have whole: "map Some results
              @ map (record_of cfg Date_now) (filter (kept cfg borrowerAddress) (event_pairs (t # txns)))
            = map Some results' @ ?Y"
          using feed Some by (simp add: event_pairs_Cons)
        show ?thesis
        proof (cases "limit \<le> length results'")
          case True
          then have rs: "rs = results'" using Cons.prems Some False Inr by simp
          have "take limit (map Some results' @ ?Y) = take limit (map Some results')"
            using True by simp
          then show ?thesis unfolding whole rs by simp
        next
          case short: False
          then have "scan_txns cfg Date_now borrowerAddress limit txns results' = Inr rs"
            using Cons.prems Some False Inr by simp
          from Cons.IH[OF this] show ?thesis unfolding whole .
        qed
      qed
    qed
  qed
qed

lemma scan_events_throws:
  assumes "scan_events cfg Date_now borrowerAddress t evs results = Inl e"
    and "success t \<noteq> Some False"
  shows "\<exists>ev \<in> set evs. kept cfg borrowerAddress (t, ev) \<and> event_data ev = None"
  using assms
proof (induction evs arbitrary: results)
  case Nil
  then show ?case by simp
next
  case (Cons event rest)
  show ?case
  proof (cases "EVENT_TYPE_MAP cfg (event_type event)")
    case None
    then show ?thesis using Cons by auto
  next
    case (Some txType)
    show ?thesis
    proof (cases "foreign_borrower borrowerAddress event")
      case True
      then show ?thesis using Cons Some by auto
    next
      case False
      show ?thesis
      proof (cases "event_data event")
        case None
        then show ?thesis using Some False Cons.prems(2) by (auto simp add: kept_def)
      next
        case d: (Some d)
        then have "scan_events cfg Date_now borrowerAddress t rest
                (results @ [build_record Date_now t txType d]) = Inl e"
          using Cons.prems Some False by simp
        from Cons.IH[OF this Cons.prems(2)] show ?thesis by auto
      qed
    qed
  qed
qed

lemma scan_txns_throws:
  assumes "scan_txns cfg Date_now borrowerAddress limit txns results = Inl e"
  shows "\<exists>p \<in> set (event_pairs txns). kept cfg borrowerAddress p \<and> event_data (snd p) = None"
  using assms
proof (induction txns arbitrary: results)
  case Nil
  then show ?case by simp
next
  case (Cons t txns)
  show ?case
  proof (cases "events t")
    case None
    then show ?thesis using Cons by (auto simp add: event_pairs_Cons)
  next
    case (Some evs)
    show ?thesis
    proof (cases "success t = Some False")
      case True
      then show ?thesis using Cons Some by (auto simp add: event_pairs_Cons)
    next
      case False
      show ?thesis
      proof (cases "scan_events cfg Date_now borrowerAddress t evs results")
        case (Inl e')
        from scan_events_throws[OF Inl False] show ?thesis
          using Some by (auto simp add: event_pairs_Cons)
      next
        case (Inr results')
        then have "scan_txns cfg Date_now borrowerAddress limit txns results' = Inl e"
          using Cons.prems Some False by (simp split: if_splits)
        from Cons.IH[OF this] show ?thesis by (auto simp add: event_pairs_Cons)
      qed
    qed
  qed
qed

lemma getRecentTransactions_scanned:
  assumes "scan_txns cfg Date_now borrowerAddress limit txns [] = Inr rs"
  shows "map Some (getRecentTransactions cfg Date_now (Transactions txns) borrowerAddress limit) =
           map (record_of cfg Date_now)
             (take limit (filter (kept cfg borrowerAddress) (event_pairs txns)))"
  using scan_txns_feed[OF assms] assms by (simp add: getRecentTransactions_def take_map)

lemma subseq_take_filter: "subseq (take n (filter P xs)) xs"
proof -
  have "subseq (take n (filter P xs)) (filter P xs)"
    by (metis append_take_drop_id list_emb_append_mono subseq_order.order_refl list_emb_Nil self_append_conv)
  also have "subseq (filter P xs) xs" by simp
  finally show ?thesis .
qed

lemma kept_explicit:
  assumes "kept cfg borrowerAddress p"
  shows "success (fst p) \<noteq> Some False
         \<and> (\<forall>d b. event_data (snd p) = Some d \<and> borrower d = Some b \<and> b \<noteq> [] \<longrightarrow> b = borrowerAddress)"
  using assms by (auto simp add: kept_def foreign_borrower_def split: option.splits)

text \<open>
  Claim C8 says that no record comes from an event whose borrower field differs from the
  queried address. An event whose borrower field is the empty string passes the check
  \<open>event.data?.borrower && ...\<close>, for the empty string is falsy: its record is in the feed
  although its borrower is not the queried address.
\<close>

theorem getRecentTransactions_keeps_empty_borrower:
  "borrower (the (event_data (borrowed_event (Some [])))) = Some []
   \<and> [] \<noteq> ''0xabc''
   \<and> getRecentTransactions sample_config sample_now
        (Transactions [sample_txn True (Some []) ''101'']) ''0xabc'' 20 = [sample_record ''101'']"
  by (simp add: getRecentTransactions_def sample_txn_def borrowed_event_def sample_config_def
      EVENT_TYPE_MAP_def listed_kinds_def Object_prototype_properties_def foreign_borrower_def build_record_def or_zero_def formatTimestamp_def
      sample_now_def sample_record_def unitsToUsdc_def parse_eval rnd_numeral rnd_one num_sub_def
      num_eq_def)

text \<open>
  Claim C8, as the code has it. For every log and limit the reconciler returns at most
  \<open>limit\<close> records. When the request gives no list of transactions the feed is empty.
  When the scan throws the feed is empty, and then some kept event of the log has no
  data object. When the scan does not throw, as it does not when every kept event has a
  data object, the records are exactly those of the first \<open>limit\<close> kept events, in the
  log's order. A kept event belongs to a transaction whose success flag is not false,
  its type is one the lookup in the event map accepts, and its borrower field is absent,
  empty or equal to the queried address.
\<close>

theorem getRecentTransactions_feed:
  "length (getRecentTransactions cfg Date_now response borrowerAddress limit) \<le> limit
   \<and> ((\<forall>txns. response \<noteq> Transactions txns) \<longrightarrow>
        getRecentTransactions cfg Date_now response borrowerAddress limit = [])
   \<and> (\<forall>txns. response = Transactions txns \<longrightarrow>
        ((\<exists>e. scan_txns cfg Date_now borrowerAddress limit txns [] = Inl e) \<longrightarrow>
           getRecentTransactions cfg Date_now response borrowerAddress limit = []
           \<and> (\<exists>p \<in> set (event_pairs txns).
                 kept cfg borrowerAddress p \<and> event_data (snd p) = None))
        \<and> ((\<exists>rs. scan_txns cfg Date_now borrowerAddress limit txns [] = Inr rs)
            \<or> (\<forall>p \<in> set (event_pairs txns).
                  kept cfg borrowerAddress p \<longrightarrow> event_data (snd p) \<noteq> None) \<longrightarrow>
           map Some (getRecentTransactions cfg Date_now response borrowerAddress limit)
             = map (record_of cfg Date_now)
                 (take limit (filter (kept cfg borrowerAddress) (event_pairs txns))))
        \<and> subseq (take limit (filter (kept cfg borrowerAddress) (event_pairs txns)))
             (event_pairs txns)
        \<and> (\<forall>p \<in> set (take limit (filter (kept cfg borrowerAddress) (event_pairs txns))).
              success (fst p) \<noteq> Some False
              \<and> EVENT_TYPE_MAP cfg (event_type (snd p)) \<noteq> None
              \<and> (\<forall>d b. event_data (snd p) = Some d \<and> borrower d = Some b \<and> b \<noteq> []
                     \<longrightarrow> b = borrowerAddress)))"
proof -
  let ?r = "getRecentTransactions cfg Date_now response borrowerAddress limit"
  have len: "length ?r \<le> limit"
    by (cases response; simp add: getRecentTransactions_def split: sum.splits)
  have other: "?r = []" if "\<forall>txns. response \<noteq> Transactions txns"
    using that by (cases response) (simp_all add: getRecentTransactions_def)
  have log: "((\<exists>e. scan_txns cfg Date_now borrowerAddress limit txns [] = Inl e) \<longrightarrow>
           ?r = []
           \<and> (\<exists>p \<in> set (event_pairs txns).
                 kept cfg borrowerAddress p \<and> event_data (snd p) = None))
        \<and> ((\<exists>rs. scan_txns cfg Date_now borrowerAddress limit txns [] = Inr rs)
            \<or> (\<forall>p \<in> set (event_pairs txns).
                  kept cfg borrowerAddress p \<longrightarrow> event_data (snd p) \<noteq> None) \<longrightarrow>
           map Some ?r
             = map (record_of cfg Date_now)
                 (take limit (filter (kept cfg borrowerAddress) (event_pairs txns))))
        \<and> subseq (take limit (filter (kept cfg borrowerAddress) (event_pairs txns)))
             (event_pairs txns)
        \<and> (\<forall>p \<in> set (take limit (filter (kept cfg borrowerAddress) (event_pairs txns))).
              success (fst p) \<noteq> Some False
              \<and> EVENT_TYPE_MAP cfg (event_type (snd p)) \<noteq> None
              \<and> (\<forall>d b. event_data (snd p) = Some d \<and> borrower d = Some b \<and> b \<noteq> []
                     \<longrightarrow> b = borrowerAddress))"
    if t: "response = Transactions txns" for txns
  proof -
    let ?ps = "take limit (filter (kept cfg borrowerAddress) (event_pairs txns))"
    have thrown: "?r = [] \<and> (\<exists>p \<in> set (event_pairs txns).
                 kept cfg borrowerAddress p \<and> event_data (snd p) = None)"
      if "\<exists>e. scan_txns cfg Date_now borrowerAddress limit txns [] = Inl e"
    proof -
      from that obtain e where e: "scan_txns cfg Date_now borrowerAddress limit txns [] = Inl e"
        by blast
      have "?r = []" using t e by (simp add: getRecentTransactions_def)
      with scan_txns_throws[OF e] show ?thesis by blast
    qed
    have scanned: "map Some ?r = map (record_of cfg Date_now) ?ps"
      if "(\<exists>rs. scan_txns cfg Date_now borrowerAddress limit txns [] = Inr rs)
            \<or> (\<forall>p \<in> set (event_pairs txns).
                  kept cfg borrowerAddress p \<longrightarrow> event_data (snd p) \<noteq> None)"
    proof -
      have "\<exists>rs. scan_txns cfg Date_now borrowerAddress limit txns [] = Inr rs"
      proof (cases "scan_txns cfg Date_now borrowerAddress limit txns []")
        case (Inl e)
        from scan_txns_throws[OF Inl] that Inl show ?thesis by auto
      next
        case (Inr rs)
        then show ?thesis by blast
      qed
      then obtain rs where "scan_txns cfg Date_now borrowerAddress limit txns [] = Inr rs"
        by blast
      from getRecentTransactions_scanned[OF this] show ?thesis using t by simp
    qed
    have k: "\<forall>p \<in> set ?ps. kept cfg borrowerAddress p"
      by (auto dest: in_set_takeD)
    have e: "\<forall>p \<in> set ?ps. success (fst p) \<noteq> Some False
              \<and> EVENT_TYPE_MAP cfg (event_type (snd p)) \<noteq> None
              \<and> (\<forall>d b. event_data (snd p) = Some d \<and> borrower d = Some b \<and> b \<noteq> []
                     \<longrightarrow> b = borrowerAddress)"
    proof
      fix p assume "p \<in> set ?ps"
      with k have kp: "kept cfg borrowerAddress p" by blast
      then have "EVENT_TYPE_MAP cfg (event_type (snd p)) \<noteq> None" by (simp add: kept_def)
      with kept_explicit[OF kp] show "success (fst p) \<noteq> Some False
              \<and> EVENT_TYPE_MAP cfg (event_type (snd p)) \<noteq> None
              \<and> (\<forall>d b. event_data (snd p) = Some d \<and> borrower d = Some b \<and> b \<noteq> []
                     \<longrightarrow> b = borrowerAddress)" by blast
    qed
    show ?thesis
      using thrown scanned e subseq_take_filter[of limit "kept cfg borrowerAddress" "event_pairs txns"]
      by blast
  qed
  show ?thesis using len other log by blast
qed

theorem getRecentTransactions_feed_witness:
  "scan_txns sample_config sample_now ''0xabc'' 20
     [sample_txn True (Some ''0xabc'') ''101'', sample_txn False (Some ''0xabc'') ''102'',
      sample_txn True (Some ''0xdef'') ''103'', sample_txn True None ''104''] []
     = Inr [sample_record ''101'', sample_record ''104'']
   \<and> getRecentTransactions sample_config sample_now
     (Transactions [sample_txn True (Some ''0xabc'') ''101'', sample_txn False (Some ''0xabc'') ''102'',
                    sample_txn True (Some ''0xdef'') ''103'', sample_txn True None ''104''])
     ''0xabc'' 20 = [sample_record ''101'', sample_record ''104'']
   \<and> length (getRecentTransactions sample_config sample_now
     (Transactions [sample_txn True (Some ''0xabc'') ''101'', sample_txn False (Some ''0xabc'') ''102'',
                    sample_txn True (Some ''0xdef'') ''103'', sample_txn True None ''104''])
     ''0xabc'' 20) \<le> 20"
proof -
  let ?log = "[sample_txn True (Some ''0xabc'') ''101'', sample_txn False (Some ''0xabc'') ''102'',
      sample_txn True (Some ''0xdef'') ''103'', sample_txn True None ''104'']"
  have sc: "scan_txns sample_config sample_now ''0xabc'' 20 ?log []
     = Inr [sample_record ''101'', sample_record ''104'']"
    by (simp add: sample_txn_def borrowed_event_def sample_config_def
      EVENT_TYPE_MAP_def listed_kinds_def Object_prototype_properties_def foreign_borrower_def
      build_record_def or_zero_def formatTimestamp_def
      sample_now_def sample_record_def unitsToUsdc_def parse_eval rnd_numeral rnd_one num_sub_def
      num_eq_def)
  have r: "getRecentTransactions sample_config sample_now (Transactions ?log) ''0xabc'' 20
      = [sample_record ''101'', sample_record ''104'']"
    unfolding getRecentTransactions_def txn_response.case sc by simp
  show ?thesis
    using sc r getRecentTransactions_feed[of sample_config sample_now "Transactions ?log" "''0xabc''" 20]
    by simp
qed

text \<open>The scan stops at the limit: with limit 1 only the first kept event is reported.\<close>

lemma getRecentTransactions_limit_example:
  "getRecentTransactions sample_config sample_now
     (Transactions [sample_txn True (Some ''0xabc'') ''101'', sample_txn True None ''104''])
     ''0xabc'' 1 = [sample_record ''101'']"
  by (simp add: getRecentTransactions_def sample_txn_def borrowed_event_def sample_config_def
      EVENT_TYPE_MAP_def listed_kinds_def Object_prototype_properties_def foreign_borrower_def build_record_def or_zero_def formatTimestamp_def
      sample_now_def sample_record_def unitsToUsdc_def parse_eval rnd_numeral rnd_one num_sub_def
      num_eq_def)

text \<open>The lookup accepts the six listed keys and the names a plain object inherits.\<close>

lemma EVENT_TYPE_MAP_accepts:
  "EVENT_TYPE_MAP cfg key \<noteq> None \<longleftrightarrow>
     key \<in> fst ` set (listed_kinds cfg) \<or> key \<in> set Object_prototype_properties"
proof (cases "map_of (listed_kinds cfg) key")
  case None
  then have "key \<notin> fst ` set (listed_kinds cfg)" by (simp add: map_of_eq_None_iff)
  then show ?thesis using None by (simp add: EVENT_TYPE_MAP_def)
next
  case (Some kind)
  then have "(key, kind) \<in> set (listed_kinds cfg)" by (rule map_of_SomeD)
  then have "key \<in> fst ` set (listed_kinds cfg)" by force
  then show ?thesis using Some by (simp add: EVENT_TYPE_MAP_def)
qed

text \<open>An event whose type is \<open>constructor\<close> passes the lookup, and its record is reported
  with the inherited value as its kind.\<close>

lemma getRecentTransactions_inherited_key_example:
  "getRecentTransactions sample_config sample_now
     (Transactions [typed_txn ''constructor'' ''105'']) ''0xabc'' 20 =
   [\<lparr>tx_kind = Inherited ''constructor'', tx_amount = Fin 1, tx_date = JustNow,
     tx_status = ''completed'', tx_reference = Some ''105''\<rparr>]"
  by (simp add: getRecentTransactions_def typed_txn_def sample_config_def
      EVENT_TYPE_MAP_def listed_kinds_def Object_prototype_properties_def foreign_borrower_def
      build_record_def or_zero_def formatTimestamp_def
      sample_now_def unitsToUsdc_def parse_eval rnd_numeral rnd_one num_sub_def
      num_eq_def)

text \<open>A kept event without a data object makes the scan throw: the feed is empty although
  the transaction before it holds a kept event.\<close>

lemma getRecentTransactions_bare_event_example:
  "getRecentTransactions sample_config sample_now
     (Transactions [sample_txn True (Some ''0xabc'') ''101'', bare_txn ''106'']) ''0xabc'' 20 = []"
  by (simp add: getRecentTransactions_def sample_txn_def borrowed_event_def bare_txn_def
      sample_config_def EVENT_TYPE_MAP_def listed_kinds_def Object_prototype_properties_def
      foreign_borrower_def build_record_def or_zero_def formatTimestamp_def
      sample_now_def unitsToUsdc_def parse_eval rnd_numeral rnd_one num_sub_def
      num_eq_def)

section \<open>Balance lookup\<close>

lemma fallback_requests_rejected:
  assumes "resources_request nd accountAddress = None" "coin_store_request nd accountAddress = None"
  shows "balance_fallback fmt nd accountAddress = Inr None"
  using assms
  by (simp add: balance_fallback_def call_find_def bind_err_def truthy_def opt_prop_def)

lemma fallback_body_not_array:
  assumes "resources_request nd accountAddress = Some body" "\<forall>xs. body \<noteq> JArr xs"
  shows "balance_fallback fmt nd accountAddress = Inl TypeError"
  using assms
  by (cases body) (simp_all add: balance_fallback_def call_find_def bind_err_def)

lemma fallback_no_resource:
  assumes "resources_request nd accountAddress = Some (JArr [])"
    "\<not> truthy (opt_prop (opt_prop (opt_prop
         (case coin_store_request nd accountAddress of None \<Rightarrow> Some JNull | Some j \<Rightarrow> Some j)
         ''data'') ''coin'') ''value'')"
  shows "balance_fallback fmt nd accountAddress = Inr None"
  using assms
  by (simp add: balance_fallback_def call_find_def bind_err_def truthy_def Let_def)

text \<open>
  Claim C10: \<open>fetchUsdcBalance\<close> never rejects. When the balance view rejects and the
  fallback finds no balance (it throws, or it falls through both probes), the promise
  resolves to the number 0; so it does when both fallback requests reject, when the
  resources body is not an array, and when the account has no resources and the
  coin-store response has no value. An unreachable node and an account with balance
  zero give the same result.
\<close>

theorem fetchUsdcBalance_never_rejects:
  "(\<exists>n. fetchUsdcBalance fmt nd accountAddress = Inr n)
   \<and> ((\<exists>e. balance_view nd accountAddress = Inl e)
        \<and> (\<forall>found. balance_fallback fmt nd accountAddress \<noteq> Inr (Some found))
      \<longrightarrow> fetchUsdcBalance fmt nd accountAddress = Inr (Fin 0))
   \<and> ((\<exists>e. balance_view nd accountAddress = Inl e)
        \<and> ((resources_request nd accountAddress = None \<and> coin_store_request nd accountAddress = None)
           \<or> (\<exists>body. resources_request nd accountAddress = Some body \<and> (\<forall>xs. body \<noteq> JArr xs))
           \<or> (resources_request nd accountAddress = Some (JArr [])
               \<and> \<not> truthy (opt_prop (opt_prop (opt_prop
                     (case coin_store_request nd accountAddress of None \<Rightarrow> Some JNull | Some j \<Rightarrow> Some j)
                     ''data'') ''coin'') ''value'')))
      \<longrightarrow> fetchUsdcBalance fmt nd accountAddress = Inr (Fin 0))
   \<and> fetchUsdcBalance fmt unreachable_node accountAddress
       = fetchUsdcBalance fmt empty_account_node accountAddress"
proof -
  have total: "\<exists>n. fetchUsdcBalance fmt nd accountAddress = Inr n"
    by (simp add: fetchUsdcBalance_def Let_def split: sum.splits option.splits)
  have zero: "fetchUsdcBalance fmt nd accountAddress = Inr (Fin 0)"
    if "\<exists>e. balance_view nd accountAddress = Inl e"
       "\<forall>found. balance_fallback fmt nd accountAddress \<noteq> Inr (Some found)"
    using that by (auto simp add: fetchUsdcBalance_def split: sum.splits option.splits)
  have concrete: "fetchUsdcBalance fmt nd accountAddress = Inr (Fin 0)"
    if v: "\<exists>e. balance_view nd accountAddress = Inl e"
      and c: "(resources_request nd accountAddress = None \<and> coin_store_request nd accountAddress = None)
           \<or> (\<exists>body. resources_request nd accountAddress = Some body \<and> (\<forall>xs. body \<noteq> JArr xs))
           \<or> (resources_request nd accountAddress = Some (JArr [])
               \<and> \<not> truthy (opt_prop (opt_prop (opt_prop
                     (case coin_store_request nd accountAddress of None \<Rightarrow> Some JNull | Some j \<Rightarrow> Some j)
                     ''data'') ''coin'') ''value''))"
  proof -
    from c have "balance_fallback fmt nd accountAddress = Inr None
        \<or> balance_fallback fmt nd accountAddress = Inl TypeError"
      using fallback_requests_rejected[of nd accountAddress fmt]
        fallback_body_not_array[of nd accountAddress _ fmt]
        fallback_no_resource[of nd accountAddress fmt]
      by blast
    then have "\<forall>found. balance_fallback fmt nd accountAddress \<noteq> Inr (Some found)" by auto
    with v show ?thesis by (rule zero)
  qed
  have a: "fetchUsdcBalance fmt unreachable_node accountAddress = Inr (Fin 0)"
    by (simp add: fetchUsdcBalance_def unreachable_node_def
        fallback_requests_rejected[of unreachable_node accountAddress fmt, unfolded unreachable_node_def])
  have b: "fetchUsdcBalance fmt empty_account_node accountAddress = Inr (Fin 0)"
    by (simp add: fetchUsdcBalance_def empty_account_node_def parse_eval rnd_zero)
  show ?thesis using total zero concrete a b by simp
qed

theorem fetchUsdcBalance_never_rejects_witness:
  "balance_view account_not_found_node ''0xabc'' = Inl network_error
   \<and> resources_request account_not_found_node ''0xabc''
       = Some (JObj [(''message'', JStr ''Account not found''), (''error_code'', JStr ''account_not_found'')])
   \<and> fetchUsdcBalance plain_fmt account_not_found_node ''0xabc'' = Inr (Fin 0)"
proof -
  have v: "\<exists>e. balance_view account_not_found_node ''0xabc'' = Inl e"
    by (simp add: account_not_found_node_def)
  have r: "\<exists>body. resources_request account_not_found_node ''0xabc'' = Some body \<and> (\<forall>xs. body \<noteq> JArr xs)"
    by (simp add: account_not_found_node_def)
  show ?thesis
    using v r fetchUsdcBalance_never_rejects[of plain_fmt account_not_found_node "''0xabc''"]
    by (simp add: account_not_found_node_def)
qed


text \<open>A view that resolves to a string with no leading digit is no failure of the request:
  the lookup then resolves to \<open>NaN\<close>.\<close>

lemma fetchUsdcBalance_unparsable_balance:
  "balance_view nd accountAddress = Inr ''n/a'' \<Longrightarrow> fetchUsdcBalance fmt nd accountAddress = Inr NaN"
  by (simp add: fetchUsdcBalance_def parse_eval)

section \<open>Unit conversion\<close>

lemma rnd_negative_nonpos: "q < 0 \<Longrightarrow> rnd q = Fin r \<Longrightarrow> r \<le> 0"
  using rnd_mag_nonneg[of "- q"] by (auto simp add: rnd_def split: if_splits)

lemma rnd_positive_nonneg: "0 < q \<Longrightarrow> rnd q = Fin r \<Longrightarrow> 0 \<le> r"
  using rnd_mag_nonneg[of q] by (auto simp add: rnd_def split: if_splits)

lemma usdcToUnits_finite:
  assumes "num_mul usdcAmount (Fin 1000000) = Fin r" "\<bar>\<lfloor>r\<rfloor>\<bar> \<le> 2 ^ 53"
  shows "usdcToUnits fmt usdcAmount = int_toString \<lfloor>r\<rfloor>"
proof -
  have "\<bar>(of_int \<lfloor>r\<rfloor> :: rat)\<bar> \<le> of_int (2 ^ 53)"
    using assms(2) by (simp only: of_int_abs[symmetric] of_int_le_iff)
  then show ?thesis using assms(1)
    by (simp add: usdcToUnits_def number_toString_def)
qed

text \<open>
  Claim C9 says that on \<open>NaN\<close> the conversion produces the string "0" or a negative
  decimal string. \<open>Math.floor(NaN * 1000000)\<close> is \<open>NaN\<close>, whose text is "NaN".
\<close>

theorem usdcToUnits_NaN_text:
  "usdcToUnits plain_fmt NaN = ''NaN'' \<and> usdcToUnits plain_fmt NaN \<noteq> ''0''
   \<and> hd (usdcToUnits plain_fmt NaN) \<noteq> CHR ''-''"
  by (simp add: usdcToUnits_def number_toString_def)

text \<open>
  Claim C9, as the code has it: \<open>usdcToUnits\<close> computes
  \<open>Math.floor(usdcAmount * 1000000)\<close> and returns its text, which is the decimal string of
  that integer when the product is finite and the integer has magnitude at most \<open>2^53\<close>.
  On \<open>NaN\<close> the text is "NaN". On a negative amount, in that range, the text is "0" or
  a minus sign followed by the decimal string of a positive integer. The function is
  total: no input makes it throw.
\<close>

theorem usdcToUnits_floor_text:
  "(num_mul usdcAmount (Fin 1000000) = Fin r \<and> \<bar>\<lfloor>r\<rfloor>\<bar> \<le> 2 ^ 53 \<longrightarrow>
      usdcToUnits fmt usdcAmount = int_toString \<lfloor>r\<rfloor>)
   \<and> usdcToUnits fmt NaN = ''NaN''
   \<and> (usdcAmount = Fin a \<and> a < 0 \<and> num_mul usdcAmount (Fin 1000000) = Fin r \<and> \<bar>\<lfloor>r\<rfloor>\<bar> \<le> 2 ^ 53 \<longrightarrow>
        usdcToUnits fmt usdcAmount = ''0''
        \<or> (\<exists>n. 0 < n \<and> usdcToUnits fmt usdcAmount = CHR ''-'' # nat_toString n))"
proof -
  have neg: "usdcToUnits fmt usdcAmount = ''0''
        \<or> (\<exists>n. 0 < n \<and> usdcToUnits fmt usdcAmount = CHR ''-'' # nat_toString n)"
    if h: "usdcAmount = Fin a" "a < 0" "num_mul usdcAmount (Fin 1000000) = Fin r" "\<bar>\<lfloor>r\<rfloor>\<bar> \<le> 2 ^ 53"
  proof -
    have "rnd (a * 1000000) = Fin r" using h(1,3) by simp
    moreover have "a * 1000000 < 0" using h(2) by (simp add: mult_less_0_iff)
    ultimately have "r \<le> 0" by (rule rnd_negative_nonpos[rotated])
    then have f: "\<lfloor>r\<rfloor> \<le> 0" by linarith
    have t: "usdcToUnits fmt usdcAmount = int_toString \<lfloor>r\<rfloor>"
      using h(3,4) by (rule usdcToUnits_finite)
    show ?thesis
    proof (cases "\<lfloor>r\<rfloor> = 0")
      case True
      then show ?thesis using t by (simp add: int_toString_def nat_toString.simps digit_char_def)
    next
      case False
      then have "\<lfloor>r\<rfloor> < 0" using f by linarith
      then have "0 < nat (- \<lfloor>r\<rfloor>)"
        "usdcToUnits fmt usdcAmount = CHR ''-'' # nat_toString (nat (- \<lfloor>r\<rfloor>))"
        using t by (simp_all add: int_toString_def)
      then show ?thesis by blast
    qed
  qed
  have nan: "usdcToUnits fmt NaN = ''NaN''"
    by (simp add: usdcToUnits_def number_toString_def)
  show ?thesis
    using usdcToUnits_finite[of usdcAmount r fmt] neg nan by blast
qed

theorem usdcToUnits_floor_text_witness:
  "num_mul (Fin (- 5 / 2)) (Fin 1000000) = Fin (- 2500000)
   \<and> \<bar>\<lfloor>- 2500000 :: rat\<rfloor>\<bar> \<le> 2 ^ 53
   \<and> usdcToUnits plain_fmt (Fin (- 5 / 2)) = ''-2500000''"
proof -
  have m: "num_mul (Fin (- 5 / 2)) (Fin 1000000) = Fin (- 2500000)"
    using rnd_of_int[of "- 2500000"] by simp
  have b: "\<bar>\<lfloor>- 2500000 :: rat\<rfloor>\<bar> \<le> 2 ^ 53" by simp
  show ?thesis
    using m b usdcToUnits_floor_text[of "Fin (- 5 / 2)" "- 2500000" plain_fmt "- 5 / 2"]
    by (simp add: int_toString_def nat_toString.simps digit_char_def)
qed

lemma round_half_even_near:
  assumes "\<bar>m - of_int n\<bar> < 1 / 2"
  shows "round_half_even m = n"
proof -
  have e: "\<bar>of_int (round_half_even m) - m\<bar> \<le> 1 / 2" by (rule round_half_even_error)
  have "\<bar>(of_int (round_half_even m) :: rat) - of_int n\<bar> < 1" using assms e by linarith
  then have "\<bar>(of_int (round_half_even m - n) :: rat)\<bar> < 1" by simp
  then have "\<bar>round_half_even m - n\<bar> < 1" by (simp only: of_int_abs[symmetric] of_int_less_1_iff)
  then show ?thesis by simp
qed

lemma ulp_normal:
  assumes "2 powi e \<le> a" "a < 2 powi (e + 1)" "- 1022 \<le> e"
  shows "ulp a = 2 powi (e - 52)"
  using ilog2_eqI[OF assms(1,2)] assms(3) by (simp add: ulp_def max_def)

text \<open>A certificate for one rounding: the exponent \<open>e\<close> and the integer significand \<open>n\<close>.\<close>

lemma rnd_certificate:
  assumes "2 powi e \<le> a" "a < 2 powi (e + 1)" "- 1022 \<le> e"
    and "\<bar>a / 2 powi (e - 52) - of_int n\<bar> < 1 / 2"
    and "of_int n * 2 powi (e - 52) < (2::rat) ^ 1024"
  shows "rnd a = Fin (of_int n * 2 powi (e - 52))"
proof -
  have pos: "0 < a" using assms(1) zero_less_power_int[of "2::rat" e] by linarith
  have u: "ulp a = 2 powi (e - 52)" using assms(1-3) by (rule ulp_normal)
  have "rnd_mag a = of_int n * 2 powi (e - 52)"
    using round_half_even_near[OF assms(4)] by (simp add: rnd_mag_def u)
  then show ?thesis using pos assms(5) by (simp add: rnd_def)
qed

lemma rnd_249: "rnd (249 / 1000000) = Fin (4593239274353678 / 2 ^ 64)"
  using rnd_certificate[of "- 12" "249 / 1000000" 4593239274353678]
  by (simp add: power_int_minus_divide)

lemma rnd_249_product:
  "rnd (4593239274353678 / 2 ^ 64 * 1000000) = Fin (8760908650119167 / 2 ^ 45)"
  using rnd_certificate[of 7 "4593239274353678 / 2 ^ 64 * 1000000" 8760908650119167]
  by (simp add: power_int_minus_divide)

lemma rnd_248: "rnd (248 / 1000000) = Fin (4574792530279969 / 2 ^ 64)"
  using rnd_certificate[of "- 12" "248 / 1000000" 4574792530279969]
  by (simp add: power_int_minus_divide)

section \<open>Decimal text of an integer and back\<close>

lemma digit_char_val: "d < 10 \<Longrightarrow> digit_val (digit_char d) = Some d"
proof -
  assume "d < 10"
  then have "d \<in> {0, 1, 2, 3, 4, 5, 6, 7, 8, 9}" by auto
  then show ?thesis
    by (auto simp add: digit_val_def digit_char_def)
qed

lemma white_space_first_bytes: "\<forall>w \<in> set white_space. w \<noteq> [] \<and> digit_val (hd w) = None"
  by (simp add: white_space_def digit_val_def)

lemma digit_not_white:
  assumes "digit_val c = Some d"
  shows "white_length (c # cs) = 0"
proof -
  have "\<not> prefix w (c # cs)" if "w \<in> set white_space" for w
  proof
    assume p: "prefix w (c # cs)"
    from that white_space_first_bytes have w: "w \<noteq> []" "digit_val (hd w) = None" by auto
    then obtain b bs where "w = b # bs" by (cases w) auto
    with p w assms show False by simp
  qed
  then have "find (\<lambda>w. prefix w (c # cs)) white_space = None"
    by (simp add: find_None_iff)
  then show ?thesis by (simp add: white_length_def)
qed

lemma digit_not_space_or_sign:
  "digit_val c = Some d \<Longrightarrow> white_length (c # cs) = 0 \<and> c \<noteq> CHR ''-'' \<and> c \<noteq> CHR ''+''"
  using digit_not_white[of c d cs]
  by (auto simp add: digit_val_def Let_def split: if_splits)

lemma nat_toString_digits: "\<forall>c \<in> set (nat_toString n). digit_val c \<noteq> None"
proof (induction n rule: nat_toString.induct)
  case (1 n)
  show ?case
  proof (cases "n < 10")
    case True
    then show ?thesis by (subst nat_toString.simps) (simp add: digit_char_val)
  next
    case False
    then show ?thesis using 1
      by (subst nat_toString.simps) (simp add: digit_char_val)
  qed
qed

lemma nat_toString_not_empty: "nat_toString n \<noteq> []"
  by (subst nat_toString.simps) simp

lemma nat_toString_value:
  "foldl (\<lambda>acc c. acc * 10 + digit_or_zero digit_val c) 0 (nat_toString n) = n"
proof (induction n rule: nat_toString.induct)
  case (1 n)
  show ?case
  proof (cases "n < 10")
    case True
    then show ?thesis
      by (subst nat_toString.simps) (simp add: digit_or_zero_def digit_char_val)
  next
    case False
    then show ?thesis using 1
      by (subst nat_toString.simps) (simp add: digit_or_zero_def digit_char_val)
  qed
qed

lemma parseInt10_nat_toString: "parseInt10 (nat_toString n) = rnd (of_nat n)"
proof -
  obtain c cs where s: "nat_toString n = c # cs"
    using nat_toString_not_empty[of n] by (cases "nat_toString n") auto
  have all: "\<forall>c \<in> set (nat_toString n). digit_val c \<noteq> None" by (rule nat_toString_digits)
  then obtain d where "digit_val c = Some d" using s by auto
  then have c: "white_length (c # cs) = 0" "c \<noteq> CHR ''-''" "c \<noteq> CHR ''+''"
    using digit_not_space_or_sign by blast+
  have d: "skip_white 0 (nat_toString n) = nat_toString n" using s c by simp
  have g: "strip_sign (nat_toString n) = (False, nat_toString n)"
    using s c by (simp add: strip_sign_def)
  have t: "takeWhile (\<lambda>c. digit_val c \<noteq> None) (nat_toString n) = nat_toString n"
    using all by (simp add: takeWhile_eq_all_conv)
  have pd: "parse_digits 10 digit_val (nat_toString n) = Some n"
    unfolding parse_digits_def t Let_def
    using nat_toString_not_empty[of n] nat_toString_value[of n] by simp
  show ?thesis
    by (simp add: parseInt10_def d g pd to_number_def)
qed

lemma unitsToUsdc_nat_toString:
  assumes "n \<le> 2 ^ 53"
  shows "unitsToUsdc (UnitsString (nat_toString n)) = rnd (of_nat n / 1000000)"
proof -
  have "int n \<le> 2 ^ 53" using assms by (metis of_nat_le_iff of_nat_numeral of_nat_power)
  then have "rnd (of_int (int n)) = Fin (of_int (int n))" by (intro rnd_of_int) simp
  then have "rnd (of_nat n) = Fin (of_nat n)" by simp
  then show ?thesis by (simp add: unitsToUsdc_def parseInt10_nat_toString)
qed

text \<open>
  Claim C2 says the round trip is exact for every amount with at most 6 fractional
  digits. For 0.000249 the product with 1000000 rounds to 248.99999999999997, the floor
  is 248, and the way back gives 0.000248.
\<close>

theorem round_trip_loses_a_unit:
  "usdcToUnits plain_fmt (rnd (249 / 1000000)) = ''248''
   \<and> unitsToUsdc (UnitsString (usdcToUnits plain_fmt (rnd (249 / 1000000)))) = rnd (248 / 1000000)
   \<and> unitsToUsdc (UnitsString (usdcToUnits plain_fmt (rnd (249 / 1000000)))) \<noteq> rnd (249 / 1000000)"
proof -
  have f: "\<lfloor>8760908650119167 / 2 ^ 45 :: rat\<rfloor> = 248" by (simp add: floor_eq_iff)
  have m: "num_mul (rnd (249 / 1000000)) (Fin 1000000) = Fin (8760908650119167 / 2 ^ 45)"
    unfolding rnd_249 num_mul.simps by (rule rnd_249_product)
  have u: "usdcToUnits plain_fmt (rnd (249 / 1000000)) = nat_toString 248"
    unfolding usdcToUnits_def m Let_def Math_floor.simps f
    by (simp add: number_toString_def int_toString_def)
  have s: "nat_toString 248 = ''248''" by (simp add: nat_toString.simps digit_char_def)
  have b: "unitsToUsdc (UnitsString (nat_toString 248)) = rnd (of_nat 248 / 1000000)"
    by (rule unitsToUsdc_nat_toString) simp
  have A: "usdcToUnits plain_fmt (rnd (249 / 1000000)) = ''248''" using u s by simp
  have B: "unitsToUsdc (UnitsString ''248'') = rnd (248 / 1000000)" using b s by simp
  have C: "rnd (248 / 1000000) \<noteq> rnd (249 / 1000000)" unfolding rnd_248 rnd_249 by simp
  show ?thesis unfolding A B using C by simp
qed

lemma rnd_relative_error:
  assumes "2 powi (- 1022) \<le> a" "a < 2 ^ 1023"
  shows "rnd a = Fin (rnd_mag a) \<and> \<bar>rnd_mag a - a\<bar> \<le> a / 2 ^ 53"
proof -
  have pos: "0 < a" using assms(1) zero_less_power_int[of "2::rat" "- 1022"] by linarith
  have e: "- 1022 \<le> ilog2 a" using assms(1) by (rule ilog2_ge)
  have u: "ulp a = 2 powi (ilog2 a) / 2 ^ 52"
    using e by (simp add: ulp_def max_def power_int_diff)
  have "ulp a / 2 = 2 powi (ilog2 a) / 2 ^ 53" by (simp add: u)
  also have "\<dots> \<le> a / 2 ^ 53"
    using ilog2_bounds[OF pos] by (intro divide_right_mono) auto
  finally have h: "ulp a / 2 \<le> a / 2 ^ 53" .
  then have err: "\<bar>rnd_mag a - a\<bar> \<le> a / 2 ^ 53"
    using rnd_mag_error[of a] by linarith
  have "a / 2 ^ 53 \<le> a" using pos by (simp add: field_simps)
  then have "rnd_mag a \<le> 2 * a" using err by linarith
  also have "\<dots> < 2 ^ 1024" using assms(2) by simp
  finally have "rnd a = Fin (rnd_mag a)" using pos by (simp add: rnd_def)
  then show ?thesis using err by simp
qed

lemma rnd_below_2_53:
  assumes "0 < q" "q < 2 ^ 53"
  shows "rnd q = Fin (rnd_mag q) \<and> \<bar>rnd_mag q - q\<bar> \<le> 1 / 2"
proof -
  have "q < 2 powi 53" using assms(2) by simp
  then have "ilog2 q < 53" using assms(1) by (intro ilog2_less)
  then have "max (ilog2 q) (- 1022) - 52 \<le> 0" by simp
  then have "(2::rat) powi (max (ilog2 q) (- 1022) - 52) \<le> 2 powi 0"
    by (intro power_int_increasing) auto
  then have "ulp q \<le> 1" by (simp add: ulp_def)
  then have err: "\<bar>rnd_mag q - q\<bar> \<le> 1 / 2" using rnd_mag_error[of q] by linarith
  then have "rnd_mag q < 2 ^ 53 + 1" using assms(2) by linarith
  also have "\<dots> < (2::rat) ^ 1024" by simp
  finally have "rnd q = Fin (rnd_mag q)" using assms(1) by (simp add: rnd_def)
  then show ?thesis using err by simp
qed

text \<open>The base-unit count of an amount with six decimals is the intended one or one less.\<close>

lemma floor_product_near:
  fixes k :: nat
  assumes "0 < k" "k < 2 ^ 52"
  obtains xq y where "rnd (of_nat k / 1000000) = Fin xq"
    and "num_mul (Fin xq) (Fin 1000000) = Fin y"
    and "\<lfloor>y\<rfloor> = int k \<or> \<lfloor>y\<rfloor> = int k - 1"
proof -
  let ?a = "of_nat k / 1000000 :: rat"
  have k1: "(1::rat) \<le> of_nat k" using assms(1) by simp
  have k2: "(of_nat k :: rat) < 2 ^ 52"
    using assms(2) by (metis of_nat_less_iff of_nat_numeral of_nat_power)
  have "(2::rat) powi (- 1022) \<le> 2 powi (- 20)" by (intro power_int_increasing) auto
  also have "\<dots> \<le> 1 / 1000000" by (simp add: power_int_minus_divide)
  also have "\<dots> \<le> ?a" using k1 by (simp add: field_simps)
  finally have lo: "2 powi (- 1022) \<le> ?a" .
  have "?a \<le> of_nat k" using k1 by (simp add: field_simps)
  also have "\<dots> < 2 ^ 1023" using k2 by (rule less_trans) simp
  finally have hi: "?a < 2 ^ 1023" .
  define xq where "xq = rnd_mag ?a"
  from rnd_relative_error[OF lo hi]
  have x: "rnd ?a = Fin xq" and xe: "\<bar>xq - ?a\<bar> \<le> ?a / 2 ^ 53"
    by (simp_all add: xq_def)
  define q where "q = xq * 1000000"
  have d: "q - of_nat k = (xq - ?a) * 1000000" by (simp add: q_def algebra_simps)
  have "\<bar>q - of_nat k\<bar> = \<bar>(xq - ?a) * 1000000\<bar>" by (simp only: d)
  also have "\<dots> = \<bar>xq - ?a\<bar> * \<bar>1000000\<bar>" by (rule abs_mult)
  also have "\<dots> = \<bar>xq - ?a\<bar> * 1000000" by simp
  also have "\<dots> \<le> (?a / 2 ^ 53) * 1000000" using xe by (intro mult_right_mono) auto
  also have "\<dots> = of_nat k / 2 ^ 53" by simp
  also have "\<dots> < 1 / 2" using k2 by (simp add: field_simps)
  finally have qe: "\<bar>q - of_nat k\<bar> < 1 / 2" .
  have qpos: "0 < q" using qe k1 by linarith
  have "(2::rat) ^ 53 = 2 * 2 ^ 52" "(1::rat) \<le> 2 ^ 52" by simp_all
  then have q53: "q < 2 ^ 53" using qe k2 by linarith
  define y where "y = rnd_mag q"
  from rnd_below_2_53[OF qpos q53]
  have yr: "rnd q = Fin y" and ye: "\<bar>y - q\<bar> \<le> 1 / 2" by (simp_all add: y_def)
  have m: "num_mul (Fin xq) (Fin 1000000) = Fin y" using yr by (simp add: q_def)
  have "of_nat k - 1 < y" "y < of_nat k + 1" using qe ye by linarith+
  then have "of_int (int k) - 1 < y" "y < of_int (int k) + 1" by simp_all
  then have "int k - 1 \<le> \<lfloor>y\<rfloor>" "\<lfloor>y\<rfloor> < int k + 1" by linarith+
  then have "\<lfloor>y\<rfloor> = int k \<or> \<lfloor>y\<rfloor> = int k - 1" by linarith
  with x m show ?thesis by (rule that)
qed

lemma usdcToUnits_of_floor:
  assumes "num_mul x (Fin 1000000) = Fin y" "\<lfloor>y\<rfloor> = int m" "m \<le> 2 ^ 53"
  shows "usdcToUnits fmt x = nat_toString m"
proof -
  have "\<bar>\<lfloor>y\<rfloor>\<bar> \<le> 2 ^ 53" using assms(2,3) by simp
  then have "usdcToUnits fmt x = int_toString \<lfloor>y\<rfloor>"
    using assms(1) by (intro usdcToUnits_finite) auto
  then show ?thesis using assms(2) by (simp add: int_toString_def)
qed

text \<open>
  Claim C2, as the code has it. Let \<open>x\<close> be the binary64 value of a non-negative decimal
  with at most 6 fractional digits, \<open>x = k / 1000000\<close> with \<open>k < 2^52\<close>. Then
  \<open>usdcToUnits x\<close> is the decimal text of \<open>k\<close> or of \<open>k - 1\<close>. In the first case
  \<open>unitsToUsdc (usdcToUnits x)\<close> is \<open>x\<close> exactly; in the second it is the binary64 value
  of \<open>(k - 1) / 1000000\<close>, one base unit below \<open>x\<close>.
\<close>

theorem usdc_round_trip:
  assumes "k < 2 ^ 52"
  shows "(usdcToUnits fmt (rnd (of_nat k / 1000000)) = nat_toString k
          \<and> unitsToUsdc (UnitsString (usdcToUnits fmt (rnd (of_nat k / 1000000))))
              = rnd (of_nat k / 1000000))
       \<or> (0 < k
          \<and> usdcToUnits fmt (rnd (of_nat k / 1000000)) = nat_toString (k - 1)
          \<and> unitsToUsdc (UnitsString (usdcToUnits fmt (rnd (of_nat k / 1000000))))
              = rnd (of_nat (k - 1) / 1000000))"
proof (cases "k = 0")
  case True
  have "num_mul (Fin 0) (Fin 1000000) = Fin 0" by (simp add: rnd_zero)
  then have "usdcToUnits fmt (Fin 0) = nat_toString 0"
    by (rule usdcToUnits_of_floor) simp_all
  moreover have "unitsToUsdc (UnitsString (nat_toString 0)) = rnd (of_nat 0 / 1000000)"
    by (rule unitsToUsdc_nat_toString) simp
  ultimately show ?thesis using True by (simp add: rnd_zero)
next
  case False
  then have pos: "0 < k" by simp
  from floor_product_near[OF pos assms] obtain xq y
    where x: "rnd (of_nat k / 1000000) = Fin xq"
      and m: "num_mul (Fin xq) (Fin 1000000) = Fin y"
      and f: "\<lfloor>y\<rfloor> = int k \<or> \<lfloor>y\<rfloor> = int k - 1"
    by blast
  have k53: "k \<le> 2 ^ 53"
  proof -
    have "(2::nat) ^ 52 \<le> 2 ^ 53" by simp
    then show ?thesis using assms by linarith
  qed
  from f show ?thesis
  proof
    assume "\<lfloor>y\<rfloor> = int k"
    with m have u: "usdcToUnits fmt (Fin xq) = nat_toString k"
      using k53 by (rule usdcToUnits_of_floor)
    have "unitsToUsdc (UnitsString (nat_toString k)) = rnd (of_nat k / 1000000)"
      using k53 by (rule unitsToUsdc_nat_toString)
    then show ?thesis unfolding x u by simp
  next
    assume "\<lfloor>y\<rfloor> = int k - 1"
    then have "\<lfloor>y\<rfloor> = int (k - 1)" using pos by (simp add: of_nat_diff)
    with m have u: "usdcToUnits fmt (Fin xq) = nat_toString (k - 1)"
      using k53 by (intro usdcToUnits_of_floor) auto
    have "unitsToUsdc (UnitsString (nat_toString (k - 1))) = rnd (of_nat (k - 1) / 1000000)"
      using k53 by (intro unitsToUsdc_nat_toString) auto
    then show ?thesis unfolding x u using pos by simp
  qed
qed

theorem usdc_round_trip_witness:
  "(5::nat) < 2 ^ 52
   \<and> (unitsToUsdc (UnitsString (usdcToUnits plain_fmt (rnd (5 / 1000000)))) = rnd (5 / 1000000)
      \<or> unitsToUsdc (UnitsString (usdcToUnits plain_fmt (rnd (5 / 1000000)))) = rnd (4 / 1000000))"
proof -
  have h: "(5::nat) < 2 ^ 52" by simp
  show ?thesis using h usdc_round_trip[OF h, of plain_fmt] by auto
qed

section \<open>Interest accrual\<close>

lemma rnd_moderate:
  assumes "1 / 10 ^ 30 \<le> a" "a \<le> 10 ^ 30"
  obtains r where "rnd a = Fin r" "a / 2 \<le> r" "r \<le> 2 * a" "\<bar>r - a\<bar> \<le> a / 2 ^ 53"
proof -
  have "(2::rat) powi (- 1022) \<le> 2 powi (- 100)" by (intro power_int_increasing) auto
  also have "\<dots> \<le> 1 / 10 ^ 30" by (simp add: power_int_minus_divide)
  finally have lo: "2 powi (- 1022) \<le> a" using assms(1) by linarith
  have "a < 2 ^ 1023" using assms(2) by (rule le_less_trans) simp
  from rnd_relative_error[OF lo this]
  have r: "rnd a = Fin (rnd_mag a)" and e: "\<bar>rnd_mag a - a\<bar> \<le> a / 2 ^ 53" by simp_all
  have pos: "0 < a" using assms(1) by (rule less_le_trans[rotated]) simp
  have "a / 2 ^ 53 \<le> a / 2" using pos by (simp add: field_simps)
  then have "a / 2 \<le> rnd_mag a" "rnd_mag a \<le> 2 * a" using e pos by linarith+
  with r e show ?thesis by (intro that) auto
qed

lemma num_add_ints:
  "\<bar>i + j\<bar> \<le> 2 ^ 53 \<Longrightarrow> num_add (Fin (of_int i)) (Fin (of_int j)) = Fin (of_int (i + j))"
  using rnd_of_int[of "i + j"] by simp

lemma num_sub_ints:
  "\<bar>i - j\<bar> \<le> 2 ^ 53 \<Longrightarrow> num_sub (Fin (of_int i)) (Fin (of_int j)) = Fin (of_int (i - j))"
  using rnd_of_int[of "i - j"] by (simp add: num_sub_def)

text \<open>The per-second interest of a principal: the two divisions and the first product.\<close>

lemma interest_per_second:
  assumes "1 / 10 ^ 6 \<le> p" "p \<le> 10 ^ 15" "1 \<le> b" "b \<le> 10 ^ 6"
  obtains c where
    "num_mul (Fin p) (num_div (num_div (Fin b) (Fin 10000)) (Fin 31536000)) = Fin c"
    "1 / 10 ^ 19 \<le> c" "c \<le> 10 ^ 11"
proof -
  have a1: "1 / 10 ^ 30 \<le> b / 10000" "b / 10000 \<le> 10 ^ 30" using assms(3,4) by simp_all
  from rnd_moderate[OF a1] obtain r where r: "rnd (b / 10000) = Fin r"
    and rb: "b / 10000 / 2 \<le> r" "r \<le> 2 * (b / 10000)" by blast
  have r1: "1 / 20000 \<le> r" "r \<le> 200" using rb assms(3,4) by simp_all
  have a2: "1 / 10 ^ 30 \<le> r / 31536000" "r / 31536000 \<le> 10 ^ 30" using r1 by simp_all
  from rnd_moderate[OF a2] obtain d where d: "rnd (r / 31536000) = Fin d"
    and db: "r / 31536000 / 2 \<le> d" "d \<le> 2 * (r / 31536000)" by blast
  have d1: "1 / 1261440000000 \<le> d" "d \<le> 1 / 78840" using db r1 by simp_all
  have dpos: "0 < d" using d1(1) by (rule less_le_trans[rotated]) simp
  have ppos: "0 < p" using assms(1) by (rule less_le_trans[rotated]) simp
  have lo: "(1 / 10 ^ 6) * (1 / 1261440000000) \<le> p * d"
    using assms(1) d1(1) by (intro mult_mono) auto
  have hi: "p * d \<le> 10 ^ 15 * (1 / 78840)"
    using assms(2) d1(2) dpos ppos by (intro mult_mono) auto
  have a3: "1 / 10 ^ 30 \<le> p * d" "p * d \<le> 10 ^ 30" using lo hi by simp_all
  from rnd_moderate[OF a3] obtain c where c: "rnd (p * d) = Fin c"
    and cb: "p * d / 2 \<le> c" "c \<le> 2 * (p * d)" by blast
  have c1: "1 / 10 ^ 19 \<le> c" "c \<le> 10 ^ 11" using cb lo hi by simp_all
  have "num_mul (Fin p) (num_div (num_div (Fin b) (Fin 10000)) (Fin 31536000)) = Fin c"
    by (simp add: r d c)
  then show ?thesis using c1 by (rule that)
qed

text \<open>Rounding keeps the products of a rate with two whole numbers of seconds apart.\<close>

lemma interest_grows:
  fixes s t :: int
  assumes c: "1 / 10 ^ 19 \<le> c" "c \<le> 10 ^ 11" and st: "1 \<le> s" "s < t" "t < 2 ^ 52"
  obtains i j where "rnd (c * of_int s) = Fin i" "rnd (c * of_int t) = Fin j" "0 < i" "i < j"
proof -
  have cpos: "0 < c" using c(1) by (rule less_le_trans[rotated]) simp
  have s1: "(1::rat) \<le> of_int s" using st(1) by simp
  have t52: "(of_int t :: rat) < 2 ^ 52"
    using st(3) by (metis of_int_less_iff of_int_numeral of_int_power)
  have st': "(of_int s :: rat) + 1 \<le> of_int t" using st(2) by (metis of_int_1 of_int_add of_int_le_iff zless_imp_add1_zle)
  have t1: "(1::rat) \<le> of_int t" using s1 st' by linarith
  have s52: "(of_int s :: rat) < 2 ^ 52" using st' t52 by linarith
  have "c * 1 \<le> c * of_int s" using s1 cpos by (intro mult_left_mono) auto
  then have cs_lo: "c \<le> c * of_int s" by (simp only: mult_1_right)
  have "c * 1 \<le> c * of_int t" using t1 cpos by (intro mult_left_mono) auto
  then have ct_lo: "c \<le> c * of_int t" by (simp only: mult_1_right)
  have cs_hi: "c * of_int s < c * 2 ^ 52" using s52 cpos by (intro mult_strict_left_mono)
  have ct_hi: "c * of_int t < c * 2 ^ 52" using t52 cpos by (intro mult_strict_left_mono)
  have gap: "c * of_int s + c \<le> c * of_int t"
  proof -
    have "c * (of_int s + 1) \<le> c * of_int t" using st' cpos by (intro mult_left_mono) auto
    then show ?thesis by (simp add: algebra_simps)
  qed
  have cmax: "c * 2 ^ 52 \<le> 10 ^ 11 * 2 ^ 52" using c(2) by (intro mult_right_mono) auto
  have n: "(10::rat) ^ 11 * 2 ^ 52 \<le> 10 ^ 30" "(1::rat) / 10 ^ 30 \<le> 1 / 10 ^ 19" by simp_all
  have bs: "1 / 10 ^ 30 \<le> c * of_int s" "c * of_int s \<le> 10 ^ 30"
    using cs_lo cs_hi c(1) cmax n by linarith+
  have bt: "1 / 10 ^ 30 \<le> c * of_int t" "c * of_int t \<le> 10 ^ 30"
    using ct_lo ct_hi c(1) cmax n by linarith+
  from rnd_moderate[OF bs] obtain i where i: "rnd (c * of_int s) = Fin i"
    and ib: "c * of_int s / 2 \<le> i" "\<bar>i - c * of_int s\<bar> \<le> c * of_int s / 2 ^ 53" by blast
  from rnd_moderate[OF bt] obtain j where j: "rnd (c * of_int t) = Fin j"
    and jb: "\<bar>j - c * of_int t\<bar> \<le> c * of_int t / 2 ^ 53" by blast
  have ipos: "0 < i" using ib(1) cs_lo cpos by linarith
  have e1: "c * of_int s / 2 ^ 53 < c / 2"
  proof -
    have "c * of_int s / 2 ^ 53 < c * 2 ^ 52 / 2 ^ 53" using cs_hi by (intro divide_strict_right_mono) auto
    then show ?thesis by simp
  qed
  have e2: "c * of_int t / 2 ^ 53 < c / 2"
  proof -
    have "c * of_int t / 2 ^ 53 < c * 2 ^ 52 / 2 ^ 53" using ct_hi by (intro divide_strict_right_mono) auto
    then show ?thesis by simp
  qed
  have "i < j" using ib(2) jb e1 e2 gap by linarith
  with i j ipos show ?thesis by (rule that)
qed

lemma accrued_interest_after_grace:
  fixes t0 g T :: int
  assumes "0 \<le> t0" "0 \<le> g" "t0 + g < T" "T < 2 ^ 52"
    and "num_mul (Fin p) (num_div (num_div (Fin b) (Fin 10000)) (Fin 31536000)) = Fin c"
  shows "accrued_interest_at (Fin (of_int T)) (Fin p) (Fin b) (Fin (of_int t0)) (Fin (of_int g))
         = rnd (c * of_int (T - (t0 + g)))"
proof -
  have "\<bar>t0 + g\<bar> \<le> 2 ^ 53" using assms(1-4) by simp
  then have ge: "num_add (Fin (of_int t0)) (Fin (of_int g)) = Fin (of_int (t0 + g))"
    by (rule num_add_ints)
  have "\<bar>T - (t0 + g)\<bar> \<le> 2 ^ 53" using assms(1-4) by simp
  then have el: "num_sub (Fin (of_int T)) (Fin (of_int (t0 + g))) = Fin (of_int (T - (t0 + g)))"
    by (rule num_sub_ints)
  have late: "\<not> num_le (Fin (of_int T)) (Fin (of_int (t0 + g)))"
    using assms(3) by (simp add: num_le_def num_eq_def)
  show ?thesis
    unfolding accrued_interest_at_def Let_def ge el assms(5) using late by simp
qed

text \<open>
  Claim C7 says that past the grace period the interest is strictly positive for every
  principal and rate. With a rate of 0 basis points the function returns 0 however long
  after the grace period it is called.
\<close>

theorem accrued_interest_zero_rate:
  "\<not> num_le (Math_floor (num_div (Fin 5000000000) (Fin 1000)))
          (num_add (Fin 1000000) default_gracePeriodSeconds)
   \<and> calculateAccruedInterest (Fin 5000000000) (Fin 1000) (Fin 0) (Fin 1000000)
        default_gracePeriodSeconds = Fin 0
   \<and> \<not> num_lt (Fin 0) (calculateAccruedInterest (Fin 5000000000) (Fin 1000) (Fin 0) (Fin 1000000)
        default_gracePeriodSeconds)"
  by (simp add: calculateAccruedInterest_def accrued_interest_at_def default_gracePeriodSeconds_def
      rnd_numeral rnd_zero num_le_def num_eq_def num_sub_def)

text \<open>
  Claim C7, as the code has it. With \<open>currentTime = Math.floor(Date.now() / 1000)\<close>: the
  function returns 0 whenever \<open>currentTime \<le> borrowTimestamp + gracePeriodSeconds\<close>
  (2592000 by default), and otherwise
  \<open>principal * ((annualRateBps / 10000) / 31536000) * (currentTime - graceEnd)\<close>, each
  operation rounded to binary64. For a principal between 0.000001 and \<open>10^15\<close>, a rate
  between 1 and \<open>10^6\<close> basis points and whole-second timestamps below \<open>2^52\<close>, the
  result past the grace period is the rounded product of a positive per-second amount
  \<open>c\<close> with the elapsed seconds; it is strictly positive and strictly increasing in the
  elapsed time.
\<close>

theorem accrued_interest_grace_then_linear:
  fixes t0 g T1 T2 :: int
  shows
  "(num_le currentTime (num_add borrowTimestamp gracePeriodSeconds) \<longrightarrow>
      accrued_interest_at currentTime principalUsdc annualRateBasisPoints borrowTimestamp
        gracePeriodSeconds = Fin 0)
   \<and> (\<not> num_le currentTime (num_add borrowTimestamp gracePeriodSeconds) \<longrightarrow>
      accrued_interest_at currentTime principalUsdc annualRateBasisPoints borrowTimestamp
        gracePeriodSeconds =
      num_mul (num_mul principalUsdc
                 (num_div (num_div annualRateBasisPoints (Fin 10000)) (Fin 31536000)))
              (num_sub currentTime (num_add borrowTimestamp gracePeriodSeconds)))
   \<and> calculateAccruedInterest Date_now principalUsdc annualRateBasisPoints borrowTimestamp
        gracePeriodSeconds =
      accrued_interest_at (Math_floor (num_div Date_now (Fin 1000))) principalUsdc
        annualRateBasisPoints borrowTimestamp gracePeriodSeconds
   \<and> default_gracePeriodSeconds = Fin 2592000
   \<and> (1 / 10 ^ 6 \<le> p \<and> p \<le> 10 ^ 15 \<and> 1 \<le> b \<and> b \<le> 10 ^ 6
        \<and> 0 \<le> t0 \<and> 0 \<le> g \<and> t0 + g < T1 \<and> T1 < T2 \<and> T2 < 2 ^ 52 \<longrightarrow>
      (\<exists>c i j. 0 < c
         \<and> accrued_interest_at (Fin (of_int T1)) (Fin p) (Fin b) (Fin (of_int t0)) (Fin (of_int g)) = Fin i
         \<and> accrued_interest_at (Fin (of_int T2)) (Fin p) (Fin b) (Fin (of_int t0)) (Fin (of_int g)) = Fin j
         \<and> Fin i = rnd (c * of_int (T1 - (t0 + g)))
         \<and> Fin j = rnd (c * of_int (T2 - (t0 + g)))
         \<and> 0 < i \<and> i < j))"
proof -
  have range: "\<exists>c i j. 0 < c
         \<and> accrued_interest_at (Fin (of_int T1)) (Fin p) (Fin b) (Fin (of_int t0)) (Fin (of_int g)) = Fin i
         \<and> accrued_interest_at (Fin (of_int T2)) (Fin p) (Fin b) (Fin (of_int t0)) (Fin (of_int g)) = Fin j
         \<and> Fin i = rnd (c * of_int (T1 - (t0 + g)))
         \<and> Fin j = rnd (c * of_int (T2 - (t0 + g)))
         \<and> 0 < i \<and> i < j"
    if h: "1 / 10 ^ 6 \<le> p" "p \<le> 10 ^ 15" "1 \<le> b" "b \<le> 10 ^ 6"
      "0 \<le> t0" "0 \<le> g" "t0 + g < T1" "T1 < T2" "T2 < 2 ^ 52"
  proof -
    from interest_per_second[OF h(1-4)] obtain c
      where c: "num_mul (Fin p) (num_div (num_div (Fin b) (Fin 10000)) (Fin 31536000)) = Fin c"
        and cb: "1 / 10 ^ 19 \<le> c" "c \<le> 10 ^ 11" by blast
    have cpos: "0 < c" using cb(1) by (rule less_le_trans[rotated]) simp
    have T1: "T1 < 2 ^ 52" using h(8,9) by simp
    have s: "1 \<le> T1 - (t0 + g)" "T1 - (t0 + g) < T2 - (t0 + g)" "T2 - (t0 + g) < 2 ^ 52"
      using h(5-9) by simp_all
    from interest_grows[OF cb s] obtain i j
      where i: "rnd (c * of_int (T1 - (t0 + g))) = Fin i"
        and j: "rnd (c * of_int (T2 - (t0 + g))) = Fin j"
        and ij: "0 < i" "i < j" by blast
    have a1: "accrued_interest_at (Fin (of_int T1)) (Fin p) (Fin b) (Fin (of_int t0)) (Fin (of_int g)) = Fin i"
      using accrued_interest_after_grace[OF h(5,6,7) T1 c] i by simp
    have "t0 + g < T2" using h(7,8) by simp
    then have a2: "accrued_interest_at (Fin (of_int T2)) (Fin p) (Fin b) (Fin (of_int t0)) (Fin (of_int g)) = Fin j"
      using accrued_interest_after_grace[OF h(5,6) _ h(9) c] j by simp
    show ?thesis using cpos a1 a2 i j ij by metis
  qed
  have early: "accrued_interest_at currentTime principalUsdc annualRateBasisPoints borrowTimestamp
        gracePeriodSeconds = Fin 0"
    if "num_le currentTime (num_add borrowTimestamp gracePeriodSeconds)"
    using that by (simp add: accrued_interest_at_def)
  have late: "accrued_interest_at currentTime principalUsdc annualRateBasisPoints borrowTimestamp
        gracePeriodSeconds =
      num_mul (num_mul principalUsdc
                 (num_div (num_div annualRateBasisPoints (Fin 10000)) (Fin 31536000)))
              (num_sub currentTime (num_add borrowTimestamp gracePeriodSeconds))"
    if "\<not> num_le currentTime (num_add borrowTimestamp gracePeriodSeconds)"
    using that by (simp add: accrued_interest_at_def Let_def)
  have clock: "calculateAccruedInterest Date_now principalUsdc annualRateBasisPoints borrowTimestamp
        gracePeriodSeconds =
      accrued_interest_at (Math_floor (num_div Date_now (Fin 1000))) principalUsdc
        annualRateBasisPoints borrowTimestamp gracePeriodSeconds"
    by (simp add: calculateAccruedInterest_def)
  show ?thesis
    using early late clock range default_gracePeriodSeconds_def by blast
qed

theorem accrued_interest_grace_then_linear_witness:
  "num_le (Fin 3000000) (num_add (Fin 1000000) default_gracePeriodSeconds)
   \<and> accrued_interest_at (Fin 3000000) (Fin 1000) (Fin 1500) (Fin 1000000) default_gracePeriodSeconds = Fin 0
   \<and> num_lt (Fin 0)
        (accrued_interest_at (Fin 5000000) (Fin 1000) (Fin 1500) (Fin 1000000) default_gracePeriodSeconds)
   \<and> num_lt
        (accrued_interest_at (Fin 5000000) (Fin 1000) (Fin 1500) (Fin 1000000) default_gracePeriodSeconds)
        (accrued_interest_at (Fin 5000001) (Fin 1000) (Fin 1500) (Fin 1000000) default_gracePeriodSeconds)"
proof -
  note th = accrued_interest_grace_then_linear[of "Fin 3000000" "Fin 1000000"
        default_gracePeriodSeconds "Fin 1000" "Fin 1500" NaN 1000 1500 1000000 2592000 5000000 5000001]
  have e: "num_le (Fin 3000000) (num_add (Fin 1000000) default_gracePeriodSeconds)"
    by (simp add: default_gracePeriodSeconds_def rnd_numeral num_le_def)
  have z: "accrued_interest_at (Fin 3000000) (Fin 1000) (Fin 1500) (Fin 1000000)
             default_gracePeriodSeconds = Fin 0"
    using th[THEN conjunct1] e by (rule mp)
  have r: "1 / 10 ^ 6 \<le> (1000::rat) \<and> (1000::rat) \<le> 10 ^ 15 \<and> 1 \<le> (1500::rat) \<and> (1500::rat) \<le> 10 ^ 6
        \<and> 0 \<le> (1000000::int) \<and> 0 \<le> (2592000::int) \<and> (1000000::int) + 2592000 < 5000000
        \<and> (5000000::int) < 5000001 \<and> (5000001::int) < 2 ^ 52"
    by simp
  from th[THEN conjunct2, THEN conjunct2, THEN conjunct2, THEN conjunct2, THEN mp, OF r]
  obtain i j where
    a: "accrued_interest_at (Fin (of_int 5000000)) (Fin 1000) (Fin 1500) (Fin (of_int 1000000))
          (Fin (of_int 2592000)) = Fin i"
    and b: "accrued_interest_at (Fin (of_int 5000001)) (Fin 1000) (Fin 1500) (Fin (of_int 1000000))
          (Fin (of_int 2592000)) = Fin j"
    and ij: "0 < i" "i < j"
    by blast
  have a': "accrued_interest_at (Fin 5000000) (Fin 1000) (Fin 1500) (Fin 1000000)
              default_gracePeriodSeconds = Fin i"
    using a by (simp add: default_gracePeriodSeconds_def)
  have b': "accrued_interest_at (Fin 5000001) (Fin 1000) (Fin 1500) (Fin 1000000)
              default_gracePeriodSeconds = Fin j"
    using b by (simp add: default_gracePeriodSeconds_def)
  show ?thesis unfolding a' b' z using e ij by simp
qed

end
